theory Spec2Isabelle
  imports Main
begin

section \<open>Data model\<close>

text \<open>
  The rows of the hosted relational store, as the migrations declare them and as
  \<^verbatim>\<open>types/database.ts\<close> reads them. A \<^verbatim>\<open>uuid\<close> is a key, a \<^verbatim>\<open>timestamptz\<close>
  a point in time; a nullable column is an \<open>option\<close>. A non-null timestamp reaches
  the TypeScript code as a non-empty ISO string, so its JavaScript truthiness is
  \<open>\<noteq> None\<close>. Dates (\<^verbatim>\<open>YYYY-MM-DD\<close>), shifts and seat numbers are strings, as in
  the code.
\<close>

type_synonym uuid = nat
type_synonym timestamp = nat
type_synonym date = string

datatype payment_status = PaymentPending | Paid

record admission =
  adm_id :: uuid
  adm_user_id :: uuid
  course_name :: string
  duration :: nat
  selected_shifts :: "string list"
  total_amount :: int
  payment_status :: payment_status
  payment_date :: "timestamp option"
  start_date :: "timestamp option"
  end_date :: "timestamp option"

datatype booking_status = Booked | Available | BookingPending

record seat_booking =
  sb_id :: uuid
  sb_user_id :: uuid
  sb_shift :: string
  seat_number :: string
  booking_status :: booking_status
  booking_date :: date

datatype attendance_status = Present | Absent

record attendance =
  att_id :: uuid
  att_user_id :: uuid
  att_shift :: string
  check_in_time :: "timestamp option"
  check_out_time :: "timestamp option"
  att_date :: date
  att_status :: attendance_status
  reason :: "string option"

datatype cash_status = CashPending | Approved | Rejected

record cash_payment =
  cp_id :: uuid
  cp_user_id :: uuid
  booking_id :: "uuid option"
  admission_id :: "uuid option"
  amount :: int
  status :: cash_status
  approved_by :: "uuid option"
  approved_at :: "timestamp option"

record payment_history =
  ph_user_id :: uuid
  ph_amount :: int
  payment_mode :: string
  duration_months :: nat
  ph_payment_date :: timestamp

record notification =
  n_user_id :: uuid
  title :: string
  n_type :: string
  created_by :: "uuid option"

record admin_log =
  admin_id :: "uuid option"
  action_name :: string
  log_payment_id :: uuid

record store =
  admissions :: "admission list"
  seat_bookings :: "seat_booking list"
  attendance_rows :: "attendance list"
  cash_payments :: "cash_payment list"
  payment_histories :: "payment_history list"
  notifications :: "notification list"
  admin_logs :: "admin_log list"

definition empty_store :: store where
  "empty_store = \<lparr>admissions = [], seat_bookings = [], attendance_rows = [],
     cash_payments = [], payment_histories = [], notifications = [], admin_logs = []\<rparr>"

text \<open>The errors a statement can be answered with: a unique or a check constraint
  violated, a \<^verbatim>\<open>.single()\<close> that did not find exactly one row, a text that the store
  does not take for a date.\<close>

datatype db_error = UniqueViolation | CheckViolation | RowCountMismatch | InvalidDate

section \<open>Absence detector: \<^verbatim>\<open>app/+api/check-absent-students.ts\<close>\<close>

text \<open>The \<^verbatim>\<open>switch (shift)\<close> of \<^verbatim>\<open>POST\<close>: \<^verbatim>\<open>shiftEnded\<close> starts \<^verbatim>\<open>false\<close> and
  no case matches a string outside the four shifts.\<close>

definition shiftEnded :: "string \<Rightarrow> nat \<Rightarrow> bool" where
  "shiftEnded shift currentHour =
     (if shift = ''morning'' then currentHour \<ge> 11
      else if shift = ''noon'' then currentHour \<ge> 16
      else if shift = ''evening'' then currentHour \<ge> 21
      else if shift = ''night'' then currentHour \<ge> 5 \<and> currentHour < 21
      else False)"

text \<open>A wall-clock reading, \<^verbatim>\<open>new Date()\<close> reduced to \<^verbatim>\<open>getHours()\<close> and
  \<^verbatim>\<open>getMinutes()\<close>.\<close>

record clock =
  hours :: nat
  minutes :: nat

definition shiftHasEnded :: "string \<Rightarrow> clock \<Rightarrow> bool" where
  "shiftHasEnded shift now = shiftEnded shift (hours now)"

text \<open>Modelled from the spec: \<^verbatim>\<open>isNowWithin\<close> (the code's \<^verbatim>\<open>isCurrentTimeInShift\<close> of
  \<^verbatim>\<open>utils/shiftTimeUtils\<close>, which is not among the sources) for the night shift. The
  spec's table gives the night window as wrapping midnight, left exactly when
  \<open>hour \<ge> 5 AND hour < 21\<close> ("not currently in the overnight window").\<close>

definition isNowWithin_night :: "clock \<Rightarrow> bool" where
  "isNowWithin_night now = (\<not> (hours now \<ge> 5 \<and> hours now < 21))"

record absent_student =
  as_user_id :: uuid
  as_shift :: string
  as_date :: date
  as_status :: string
  as_reason :: string

text \<open>\<^verbatim>\<open>attendanceRecords.some(record => record.user_id === admission.user_id &&
  record.shift === shift && record.check_in_time)\<close>\<close>

definition hasCheckedIn :: "attendance list \<Rightarrow> uuid \<Rightarrow> string \<Rightarrow> bool" where
  "hasCheckedIn attendanceRecords uid shift =
     list_ex (\<lambda>record. att_user_id record = uid \<and> att_shift record = shift
                \<and> check_in_time record \<noteq> None) attendanceRecords"

text \<open>The inner loop \<^verbatim>\<open>for (const shift of admission.selected_shifts)\<close>; the last
  argument is the array \<^verbatim>\<open>absentStudents\<close> built so far, \<^verbatim>\<open>push\<close> appends.\<close>

fun check_shifts ::
  "attendance list \<Rightarrow> date \<Rightarrow> nat \<Rightarrow> uuid \<Rightarrow> string list \<Rightarrow> absent_student list
     \<Rightarrow> absent_student list" where
  "check_shifts attendanceRecords checkDate currentHour uid [] absentStudents = absentStudents"
| "check_shifts attendanceRecords checkDate currentHour uid (shift # rest) absentStudents =
     check_shifts attendanceRecords checkDate currentHour uid rest
       (if shiftEnded shift currentHour
        then (if \<not> hasCheckedIn attendanceRecords uid shift
              then absentStudents @
                     [\<lparr>as_user_id = uid, as_shift = shift, as_date = checkDate,
                       as_status = ''absent'', as_reason = ''no_checkin''\<rparr>]
              else absentStudents)
        else absentStudents)"

text \<open>The outer loop \<^verbatim>\<open>for (const admission of admissions || [])\<close>.\<close>

fun check_admissions ::
  "attendance list \<Rightarrow> date \<Rightarrow> nat \<Rightarrow> admission list \<Rightarrow> absent_student list
     \<Rightarrow> absent_student list" where
  "check_admissions attendanceRecords checkDate currentHour [] absentStudents = absentStudents"
| "check_admissions attendanceRecords checkDate currentHour (admission # rest) absentStudents =
     check_admissions attendanceRecords checkDate currentHour rest
       (check_shifts attendanceRecords checkDate currentHour (adm_user_id admission)
          (selected_shifts admission) absentStudents)"

text \<open>The two queries of \<^verbatim>\<open>POST\<close>. The first compares a text column with a
  constant. The second, \<^verbatim>\<open>.eq('date', checkDate)\<close>, sends the request's text to a column
  of type \<^verbatim>\<open>date\<close>: the store converts the text to a date and answers an error when
  it cannot. That conversion belongs to the store and is not among the sources; it is
  the argument \<open>date_in\<close>, which gives the date as the column holds it
  (\<^verbatim>\<open>YYYY-MM-DD\<close>), or \<open>None\<close> for a text the store refuses.\<close>

definition select_paid_admissions :: "store \<Rightarrow> admission list" where
  "select_paid_admissions st = filter (\<lambda>a. payment_status a = Paid) (admissions st)"

definition select_attendance_on ::
  "(string \<Rightarrow> date option) \<Rightarrow> store \<Rightarrow> string \<Rightarrow> db_error + attendance list" where
  "select_attendance_on date_in st checkDate =
     (case date_in checkDate of
        None \<Rightarrow> Inl InvalidDate
      | Some d \<Rightarrow> Inr (filter (\<lambda>r. att_date r = d) (attendance_rows st)))"

record absence_report =
  success :: bool
  report_date :: date
  absentCount :: nat
  absentStudents :: "absent_student list"

datatype response = Json200 absence_report | Json500 string

text \<open>The request body after \<^verbatim>\<open>await request.json()\<close>: \<open>None\<close> when the request has
  no JSON body (the promise rejects and the \<^verbatim>\<open>catch\<close> answers 500), otherwise the
  \<^verbatim>\<open>date\<close> member, itself optional. \<open>checkDate_of\<close> is \<^verbatim>\<open>date || today\<close>, which
  takes the default for a missing and for an empty date. An error of the attendance
  query is thrown and the \<^verbatim>\<open>catch\<close> answers 500. The records carry the date as the
  request gave it. The handler reads the store and writes nothing to it: the flagged
  list is logged and returned. The store is returned as the handler leaves it.\<close>

definition checkDate_of :: "string option \<Rightarrow> date \<Rightarrow> date" where
  "checkDate_of date_member today =
     (case date_member of
        None \<Rightarrow> today
      | Some d \<Rightarrow> if d = [] then today else d)"

definition POST ::
  "(string \<Rightarrow> date option) \<Rightarrow> store \<Rightarrow> string option option \<Rightarrow> date \<Rightarrow> clock
     \<Rightarrow> response \<times> store" where
  "POST date_in st body today currentTime =
     (case body of
        None \<Rightarrow> (Json500 ''Failed to check absent students'', st)
      | Some date_member \<Rightarrow>
          (let checkDate = checkDate_of date_member today;
               admissions = select_paid_admissions st
           in (case select_attendance_on date_in st checkDate of
                 Inl attendanceError \<Rightarrow> (Json500 ''Failed to check absent students'', st)
               | Inr attendanceRecords \<Rightarrow>
                   (let currentHour = hours currentTime;
                        absentStudents = check_admissions attendanceRecords checkDate
                                           currentHour admissions []
                    in (Json200 \<lparr>success = True, report_date = checkDate,
                                 absentCount = length absentStudents,
                                 absentStudents = absentStudents\<rparr>, st)))))"

section \<open>Storage layer: the constraints of the migrations\<close>

text \<open>
  Each function below is one statement sent to the store. A statement is atomic: it
  either answers an error and leaves the store as it was, or it takes effect. Only
  the declared constraints are modelled (primary keys through fresh identifiers,
  \<^verbatim>\<open>CHECK\<close>s, the unique constraints and the cascading foreign key of
  \<^verbatim>\<open>cash_payments.booking_id\<close>); row-level security and transport failures are not.
\<close>

text \<open>\<^verbatim>\<open>gen_random_uuid()\<close>, the default of every \<^verbatim>\<open>id\<close> column: some key that the
  table does not hold yet.\<close>

definition gen_random_uuid :: "uuid list \<Rightarrow> uuid" where
  "gen_random_uuid used = Suc (fold max used 0)"

text \<open>\<^verbatim>\<open>CHECK (shift IN ('morning', 'noon', 'evening', 'night'))\<close>\<close>

definition shift_check :: "string \<Rightarrow> bool" where
  "shift_check s = (s \<in> set [''morning'', ''noon'', ''evening'', ''night''])"

definition same_seat :: "seat_booking \<Rightarrow> seat_booking \<Rightarrow> bool" where
  "same_seat x y =
     (sb_shift x = sb_shift y \<and> seat_number x = seat_number y \<and> booking_date x = booking_date y)"

text \<open>\<^verbatim>\<open>CREATE UNIQUE INDEX seat_bookings_unique_booked ON seat_bookings (shift,
  seat_number, booking_date) WHERE booking_status = 'booked'\<close>: a row that enters the
  index is refused when another row of the index has its key. The first argument is
  the rest of the table.\<close>

definition violates_unique_booked :: "seat_booking list \<Rightarrow> seat_booking \<Rightarrow> bool" where
  "violates_unique_booked others r =
     (booking_status r = Booked
      \<and> list_ex (\<lambda>x. booking_status x = Booked \<and> same_seat x r) others)"

definition insert_seat_booking ::
  "store \<Rightarrow> uuid \<Rightarrow> string \<Rightarrow> string \<Rightarrow> booking_status \<Rightarrow> date
     \<Rightarrow> db_error + (seat_booking \<times> store)" where
  "insert_seat_booking st uid shift seat bstatus d =
     (let r = \<lparr>sb_id = gen_random_uuid (map sb_id (seat_bookings st)), sb_user_id = uid,
                sb_shift = shift, seat_number = seat, booking_status = bstatus,
                booking_date = d\<rparr>
      in if \<not> shift_check shift then Inl CheckViolation
         else if violates_unique_booked (seat_bookings st) r then Inl UniqueViolation
         else Inr (r, st\<lparr>seat_bookings := seat_bookings st @ [r]\<rparr>))"

text \<open>\<^verbatim>\<open>update({ booking_status }).eq('id', bid)\<close>\<close>

definition update_booking_status :: "store \<Rightarrow> uuid \<Rightarrow> booking_status \<Rightarrow> db_error + store" where
  "update_booking_status st bid bstatus =
     (let others = filter (\<lambda>r. sb_id r \<noteq> bid) (seat_bookings st)
      in if list_ex (\<lambda>r. sb_id r = bid
                          \<and> violates_unique_booked others (r\<lparr>booking_status := bstatus\<rparr>))
               (seat_bookings st)
         then Inl UniqueViolation
         else Inr (st\<lparr>seat_bookings :=
                        map (\<lambda>r. if sb_id r = bid then r\<lparr>booking_status := bstatus\<rparr> else r)
                          (seat_bookings st)\<rparr>))"

text \<open>\<^verbatim>\<open>delete().eq('id', bid)\<close>; \<^verbatim>\<open>cash_payments.booking_id\<close> is declared
  \<^verbatim>\<open>REFERENCES seat_bookings(id) ON DELETE CASCADE\<close>.\<close>

definition delete_seat_booking :: "store \<Rightarrow> uuid \<Rightarrow> db_error + store" where
  "delete_seat_booking st bid =
     Inr (st\<lparr>seat_bookings := filter (\<lambda>r. sb_id r \<noteq> bid) (seat_bookings st),
             cash_payments :=
               (if list_ex (\<lambda>r. sb_id r = bid) (seat_bookings st)
                then filter (\<lambda>p. booking_id p \<noteq> Some bid) (cash_payments st)
                else cash_payments st)\<rparr>)"

text \<open>\<^verbatim>\<open>attendance\<close>: \<^verbatim>\<open>status text DEFAULT 'present'\<close>, the shift \<^verbatim>\<open>CHECK\<close> and
  \<^verbatim>\<open>UNIQUE (user_id, shift, date, status)\<close>. The insert of the attendance screen gives
  \<^verbatim>\<open>user_id\<close>, \<^verbatim>\<open>shift\<close>, \<^verbatim>\<open>check_in_time\<close> and \<^verbatim>\<open>date\<close>; the other columns take their
  defaults.\<close>

definition insert_attendance ::
  "store \<Rightarrow> uuid \<Rightarrow> string \<Rightarrow> timestamp \<Rightarrow> date \<Rightarrow> db_error + store" where
  "insert_attendance st uid shift t d =
     (let r = \<lparr>att_id = gen_random_uuid (map att_id (attendance_rows st)), att_user_id = uid,
                att_shift = shift, check_in_time = Some t, check_out_time = None,
                att_date = d, att_status = Present, reason = None\<rparr>
      in if \<not> shift_check shift then Inl CheckViolation
         else if list_ex (\<lambda>x. att_user_id x = uid \<and> att_shift x = shift \<and> att_date x = d
                               \<and> att_status x = Present) (attendance_rows st)
         then Inl UniqueViolation
         else Inr (st\<lparr>attendance_rows := attendance_rows st @ [r]\<rparr>))"

definition update_check_out :: "store \<Rightarrow> uuid \<Rightarrow> timestamp \<Rightarrow> db_error + store" where
  "update_check_out st aid t =
     Inr (st\<lparr>attendance_rows :=
               map (\<lambda>r. if att_id r = aid then r\<lparr>check_out_time := Some t\<rparr> else r)
                 (attendance_rows st)\<rparr>)"

text \<open>\<^verbatim>\<open>cash_payments\<close>: \<^verbatim>\<open>amount numeric(10,2) NOT NULL CHECK (amount > 0)\<close>; the
  table has no unique constraint besides its key.\<close>

definition insert_cash_payment ::
  "store \<Rightarrow> uuid \<Rightarrow> uuid option \<Rightarrow> uuid option \<Rightarrow> int \<Rightarrow> cash_status
     \<Rightarrow> db_error + (cash_payment \<times> store)" where
  "insert_cash_payment st uid bid aid amt cstatus =
     (let p = \<lparr>cp_id = gen_random_uuid (map cp_id (cash_payments st)), cp_user_id = uid,
                booking_id = bid, admission_id = aid, amount = amt, status = cstatus,
                approved_by = None, approved_at = None\<rparr>
      in if \<not> amt > 0 then Inl CheckViolation
         else Inr (p, st\<lparr>cash_payments := cash_payments st @ [p]\<rparr>))"

definition update_cash_payment ::
  "store \<Rightarrow> uuid \<Rightarrow> cash_status \<Rightarrow> uuid option \<Rightarrow> timestamp \<Rightarrow> db_error + store" where
  "update_cash_payment st pid cstatus admin t =
     Inr (st\<lparr>cash_payments :=
               map (\<lambda>p. if cp_id p = pid
                         then p\<lparr>status := cstatus, approved_by := admin, approved_at := Some t\<rparr>
                         else p) (cash_payments st)\<rparr>)"

text \<open>\<^verbatim>\<open>.single()\<close> answers an error unless exactly one row matches;
  \<^verbatim>\<open>.maybeSingle()\<close> answers the row when exactly one matches and \<^verbatim>\<open>data: null\<close>
  otherwise (with an error besides when several match); its callers read \<^verbatim>\<open>data\<close>
  only.\<close>

definition single :: "'a list \<Rightarrow> db_error + 'a" where
  "single rows = (case rows of [x] \<Rightarrow> Inr x | _ \<Rightarrow> Inl RowCountMismatch)"

definition maybeSingle :: "'a list \<Rightarrow> 'a option" where
  "maybeSingle rows = (case rows of [x] \<Rightarrow> Some x | _ \<Rightarrow> None)"

definition select_admission_duration :: "store \<Rightarrow> uuid \<Rightarrow> db_error + nat" where
  "select_admission_duration st aid =
     (case single (filter (\<lambda>a. adm_id a = aid) (admissions st)) of
        Inl e \<Rightarrow> Inl e
      | Inr a \<Rightarrow> Inr (duration a))"

definition update_admission_paid ::
  "store \<Rightarrow> uuid \<Rightarrow> timestamp \<Rightarrow> timestamp \<Rightarrow> db_error + store" where
  "update_admission_paid st aid startDate endDate =
     Inr (st\<lparr>admissions :=
               map (\<lambda>a. if adm_id a = aid
                         then a\<lparr>payment_status := Paid, payment_date := Some startDate,
                                start_date := Some startDate, end_date := Some endDate\<rparr>
                         else a) (admissions st)\<rparr>)"

definition update_admission_pending :: "store \<Rightarrow> uuid \<Rightarrow> db_error + store" where
  "update_admission_pending st aid =
     Inr (st\<lparr>admissions :=
               map (\<lambda>a. if adm_id a = aid then a\<lparr>payment_status := PaymentPending\<rparr> else a)
                 (admissions st)\<rparr>)"

text \<open>Inserts whose answer the code never reads.\<close>

definition insert_payment_history :: "store \<Rightarrow> payment_history \<Rightarrow> store" where
  "insert_payment_history st h = st\<lparr>payment_histories := payment_histories st @ [h]\<rparr>"

definition insert_notification :: "store \<Rightarrow> notification \<Rightarrow> store" where
  "insert_notification st n = st\<lparr>notifications := notifications st @ [n]\<rparr>"

definition insert_admin_log :: "store \<Rightarrow> admin_log \<Rightarrow> store" where
  "insert_admin_log st l = st\<lparr>admin_logs := admin_logs st @ [l]\<rparr>"

section \<open>Cash payment approval: \<^verbatim>\<open>AdminPaymentsScreen.handlePaymentAction\<close>\<close>

datatype action = Approve | Reject

datatype alert = AlertSuccess | AlertError

text \<open>The \<^verbatim>\<open>if (action === 'approve')\<close> branch. \<open>Inl\<close> carries the store at the
  \<^verbatim>\<open>throw\<close>. \<open>endDateAfter n\<close> stands for \<^verbatim>\<open>new Date()\<close> moved on by \<open>n\<close> months
  with \<^verbatim>\<open>setMonth\<close>.\<close>

definition approve_branch ::
  "store \<Rightarrow> cash_payment \<Rightarrow> timestamp \<Rightarrow> (nat \<Rightarrow> timestamp) \<Rightarrow> store + store" where
  "approve_branch st payment startDate endDateAfter =
     (case (case booking_id payment of
              None \<Rightarrow> Inr st
            | Some bid \<Rightarrow> update_booking_status st bid Booked) of
        Inl bookingError \<Rightarrow> Inl st
      | Inr st2 \<Rightarrow>
          (case admission_id payment of
             None \<Rightarrow> Inr st2
           | Some aid \<Rightarrow>
               (case select_admission_duration st2 aid of
                  Inl admissionFetchError \<Rightarrow> Inl st2
                | Inr months \<Rightarrow>
                    (case update_admission_paid st2 aid startDate (endDateAfter months) of
                       Inl admissionError \<Rightarrow> Inl st2
                     | Inr st3 \<Rightarrow>
                         Inr (insert_payment_history st3
                                \<lparr>ph_user_id = cp_user_id payment, ph_amount = amount payment,
                                 payment_mode = ''cash'', duration_months = months,
                                 ph_payment_date = startDate\<rparr>)))))"

text \<open>The \<^verbatim>\<open>else if (action === 'reject')\<close> branch.\<close>

definition reject_branch :: "store \<Rightarrow> uuid option \<Rightarrow> cash_payment \<Rightarrow> store + store" where
  "reject_branch st admin payment =
     (case (case booking_id payment of
              None \<Rightarrow> Inr st
            | Some bid \<Rightarrow> delete_seat_booking st bid) of
        Inl bookingError \<Rightarrow> Inl st
      | Inr st2 \<Rightarrow>
          (case (case admission_id payment of
                   None \<Rightarrow> Inr st2
                 | Some aid \<Rightarrow> update_admission_pending st2 aid) of
             Inl admissionError \<Rightarrow> Inl st2
           | Inr st3 \<Rightarrow>
               Inr (insert_notification st3
                      \<lparr>n_user_id = cp_user_id payment, title = ''Payment Rejected'',
                       n_type = ''error'', created_by = admin\<rparr>)))"

text \<open>\<^verbatim>\<open>handlePaymentAction(payment, action)\<close>: \<open>payment\<close> is the row the screen
  shows, \<open>admin\<close> is \<^verbatim>\<open>user?.id\<close>. Every \<^verbatim>\<open>throw\<close> lands in the one \<^verbatim>\<open>catch\<close>, which
  alerts and undoes nothing.\<close>

definition handlePaymentAction ::
  "store \<Rightarrow> uuid option \<Rightarrow> cash_payment \<Rightarrow> action \<Rightarrow> timestamp \<Rightarrow> (nat \<Rightarrow> timestamp)
     \<Rightarrow> alert \<times> store" where
  "handlePaymentAction st admin payment act now endDateAfter =
     (case update_cash_payment st (cp_id payment)
             (if act = Approve then Approved else Rejected) admin now of
        Inl error \<Rightarrow> (AlertError, st)
      | Inr st1 \<Rightarrow>
          (case (if act = Approve then approve_branch st1 payment now endDateAfter
                 else reject_branch st1 admin payment) of
             Inl st_thrown \<Rightarrow> (AlertError, st_thrown)
           | Inr st2 \<Rightarrow>
               (let st3 = insert_admin_log st2
                            \<lparr>admin_id = admin,
                             action_name = (if act = Approve then ''approve_cash_payment''
                                            else ''reject_cash_payment''),
                             log_payment_id = cp_id payment\<rparr>;
                    st4 = (if act = Approve
                           then insert_notification st3
                                  \<lparr>n_user_id = cp_user_id payment, title = ''Payment Approved'',
                                   n_type = ''success'', created_by = admin\<rparr>
                           else st3)
                in (AlertSuccess, st4))))"

subsection \<open>Approvals running side by side\<close>

text \<open>Two administrators approve at the same time: each call of
  \<^verbatim>\<open>handlePaymentAction\<close> sends its statements one by one, and the store runs the
  statements of both in some order, each atomically.\<close>

datatype stmt =
    UpdateCashPayment uuid cash_status "uuid option" timestamp
  | UpdateBookingStatus uuid booking_status
  | InsertSeatBooking uuid string string booking_status date
  | DeleteSeatBooking uuid
  | InsertAdminLog admin_log
  | InsertNotification notification

fun exec :: "stmt \<Rightarrow> store \<Rightarrow> db_error + store" where
  "exec (UpdateCashPayment pid cstatus admin t) st = update_cash_payment st pid cstatus admin t"
| "exec (UpdateBookingStatus bid bstatus) st = update_booking_status st bid bstatus"
| "exec (InsertSeatBooking uid shift seat bstatus d) st =
     (case insert_seat_booking st uid shift seat bstatus d of
        Inl e \<Rightarrow> Inl e
      | Inr (r, st') \<Rightarrow> Inr st')"
| "exec (DeleteSeatBooking bid) st = delete_seat_booking st bid"
| "exec (InsertAdminLog l) st = Inr (insert_admin_log st l)"
| "exec (InsertNotification n) st = Inr (insert_notification st n)"

text \<open>Any sequence of statements; a refused statement changes nothing.\<close>

fun exec_all :: "stmt list \<Rightarrow> store \<Rightarrow> store" where
  "exec_all [] st = st"
| "exec_all (s # ss) st =
     exec_all ss (case exec s st of Inl e \<Rightarrow> st | Inr st' \<Rightarrow> st')"

text \<open>The statements of \<^verbatim>\<open>handlePaymentAction(payment, 'approve')\<close> for a payment
  linked to a booking and to no admission, in the order of the code.\<close>

definition approval_statements :: "uuid option \<Rightarrow> cash_payment \<Rightarrow> timestamp \<Rightarrow> stmt list" where
  "approval_statements admin payment now =
     [UpdateCashPayment (cp_id payment) Approved admin now]
     @ (case booking_id payment of
          None \<Rightarrow> []
        | Some bid \<Rightarrow> [UpdateBookingStatus bid Booked])
     @ [InsertAdminLog \<lparr>admin_id = admin, action_name = ''approve_cash_payment'',
                        log_payment_id = cp_id payment\<rparr>,
        InsertNotification \<lparr>n_user_id = cp_user_id payment, title = ''Payment Approved'',
                            n_type = ''success'', created_by = admin\<rparr>]"

text \<open>A call in progress: the statements still to send, or the \<^verbatim>\<open>catch\<close> reached.
  \<open>Running []\<close> is the call that has alerted success.\<close>

datatype thread = Running "stmt list" | Thrown

fun step_thread :: "thread \<Rightarrow> store \<Rightarrow> thread \<times> store" where
  "step_thread (Running (s # rest)) st =
     (case exec s st of
        Inl e \<Rightarrow> (Thrown, st)
      | Inr st' \<Rightarrow> (Running rest, st'))"
| "step_thread (Running []) st = (Running [], st)"
| "step_thread Thrown st = (Thrown, st)"

fun finished :: "thread \<Rightarrow> bool" where
  "finished (Running ss) = (ss = [])"
| "finished Thrown = True"

fun succeeded :: "thread \<Rightarrow> bool" where
  "succeeded (Running ss) = (ss = [])"
| "succeeded Thrown = False"

text \<open>A schedule says whose statement the store runs next: \<open>True\<close> for the first
  call, \<open>False\<close> for the second.\<close>

fun run_schedule :: "bool list \<Rightarrow> thread \<times> thread \<times> store \<Rightarrow> thread \<times> thread \<times> store" where
  "run_schedule [] c = c"
| "run_schedule (b # bs) (t1, t2, st) =
     (if b then (case step_thread t1 st of (t1', st') \<Rightarrow> run_schedule bs (t1', t2, st'))
      else (case step_thread t2 st of (t2', st') \<Rightarrow> run_schedule bs (t1, t2', st')))"

text \<open>The number of rows with \<^verbatim>\<open>booking_status = 'booked'\<close> for a seat of a shift on a
  date.\<close>

definition booked_count :: "store \<Rightarrow> string \<Rightarrow> string \<Rightarrow> date \<Rightarrow> nat" where
  "booked_count st shift seat d =
     length (filter (\<lambda>r. booking_status r = Booked \<and> sb_shift r = shift
                          \<and> seat_number r = seat \<and> booking_date r = d) (seat_bookings st))"

definition find_booking :: "store \<Rightarrow> uuid \<Rightarrow> seat_booking option" where
  "find_booking st bid = List.find (\<lambda>r. sb_id r = bid) (seat_bookings st)"

definition find_cash_payment :: "store \<Rightarrow> uuid \<Rightarrow> cash_payment option" where
  "find_cash_payment st pid = List.find (\<lambda>p. cp_id p = pid) (cash_payments st)"

section \<open>Seat booking: \<^verbatim>\<open>BookingScreen\<close>\<close>

text \<open>The state \<^verbatim>\<open>fetchData\<close> sets: today's rows with \<^verbatim>\<open>booking_status = 'booked'\<close>,
  the signed-in user's rows among them, and the user's pending cash payments that
  carry a \<^verbatim>\<open>booking_id\<close>.\<close>

record booking_screen =
  seatBookings :: "seat_booking list"
  userBookings :: "seat_booking list"
  pendingCashPayments :: "cash_payment list"

definition fetchData_booking :: "store \<Rightarrow> uuid \<Rightarrow> date \<Rightarrow> booking_screen" where
  "fetchData_booking st uid today =
     (let bookingsData = filter (\<lambda>b. booking_date b = today \<and> booking_status b = Booked)
                           (seat_bookings st);
          userBookingsData = filter (\<lambda>booking. sb_user_id booking = uid) bookingsData;
          cashPaymentsData = filter (\<lambda>p. cp_user_id p = uid \<and> status p = CashPending
                                           \<and> booking_id p \<noteq> None) (cash_payments st)
      in \<lparr>seatBookings = bookingsData, userBookings = userBookingsData,
          pendingCashPayments = cashPaymentsData\<rparr>)"

text \<open>The alerts of the screen, by their titles; \<open>NoBookingAlert\<close> is the silent
  \<^verbatim>\<open>return\<close> of the first guard.\<close>

datatype booking_alert =
    NoBookingAlert
  | AlreadyBooked string
  | PendingPaymentRequest
  | BookingSubmitted
  | BookingFailed

text \<open>\<^verbatim>\<open>handleDirectBooking\<close>: the booking fee is the constant 50.\<close>

definition handleDirectBooking ::
  "booking_screen \<Rightarrow> store \<Rightarrow> uuid option \<Rightarrow> string \<Rightarrow> string \<Rightarrow> date
     \<Rightarrow> booking_alert \<times> store" where
  "handleDirectBooking scr st user selectedSeat selectedShift today =
     (case user of
        None \<Rightarrow> (NoBookingAlert, st)
      | Some uid \<Rightarrow>
          if selectedSeat = [] \<or> selectedShift = [] then (NoBookingAlert, st)
          else if list_ex (\<lambda>payment. booking_id payment \<noteq> None) (pendingCashPayments scr)
          then (PendingPaymentRequest, st)
          else
            (case insert_seat_booking st uid selectedShift selectedSeat BookingPending today of
               Inl bookingError \<Rightarrow> (BookingFailed, st)
             | Inr (bookingData, st1) \<Rightarrow>
                 (case insert_cash_payment st1 uid (Some (sb_id bookingData)) None 50
                         CashPending of
                    Inl cashPaymentError \<Rightarrow> (BookingFailed, st1)
                  | Inr (cashPaymentData, st2) \<Rightarrow> (BookingSubmitted, st2))))"

text \<open>\<^verbatim>\<open>handleSeatBooking\<close>\<close>

definition handleSeatBooking ::
  "booking_screen \<Rightarrow> store \<Rightarrow> uuid option \<Rightarrow> string \<Rightarrow> string \<Rightarrow> date
     \<Rightarrow> booking_alert \<times> store" where
  "handleSeatBooking scr st user selectedSeat selectedShift today =
     (if user = None \<or> selectedSeat = [] \<or> selectedShift = [] then (NoBookingAlert, st)
      else
        (case List.find (\<lambda>booking. sb_shift booking = selectedShift) (userBookings scr) of
           Some existingBooking \<Rightarrow> (AlreadyBooked (seat_number existingBooking), st)
         | None \<Rightarrow> handleDirectBooking scr st user selectedSeat selectedShift today))"

text \<open>The operation \<^verbatim>\<open>requestBooking(userId, shift, seatNumber, date)\<close>: the screen
  loads its state and the user confirms a seat. The screen books for the current day
  only, so \<open>d\<close> is today.\<close>

definition requestBooking :: "store \<Rightarrow> uuid \<Rightarrow> string \<Rightarrow> string \<Rightarrow> date \<Rightarrow> booking_alert \<times> store" where
  "requestBooking st uid shift seatNumber d =
     handleSeatBooking (fetchData_booking st uid d) st (Some uid) seatNumber shift d"

section \<open>Cash payment for an admission: \<^verbatim>\<open>PaymentScreen.confirmCashPayment\<close>\<close>

record payment_screen =
  scr_admission :: "admission option"
  existingCashPayment :: "cash_payment option"

text \<open>The query both \<^verbatim>\<open>fetchAdmission\<close> and the "double-check" of
  \<^verbatim>\<open>confirmCashPayment\<close> send.\<close>

definition select_pending_cash_payment :: "store \<Rightarrow> uuid \<Rightarrow> uuid \<Rightarrow> cash_payment option" where
  "select_pending_cash_payment st uid aid =
     maybeSingle (filter (\<lambda>p. cp_user_id p = uid \<and> admission_id p = Some aid
                               \<and> status p = CashPending) (cash_payments st))"

text \<open>\<^verbatim>\<open>fetchAdmission\<close>, from the row its first query found (the user's most recent
  admission).\<close>

definition fetchAdmission :: "store \<Rightarrow> uuid \<Rightarrow> admission option \<Rightarrow> payment_screen" where
  "fetchAdmission st uid found =
     (case found of
        None \<Rightarrow> \<lparr>scr_admission = None, existingCashPayment = None\<rparr>
      | Some a \<Rightarrow> \<lparr>scr_admission = Some a,
                   existingCashPayment = select_pending_cash_payment st uid (adm_id a)\<rparr>)"

datatype cash_alert =
    NoCashAlert
  | RequestAlreadySubmitted
  | RequestAlreadyExists
  | CashPaymentSubmitted
  | CashError

definition confirmCashPayment ::
  "payment_screen \<Rightarrow> store \<Rightarrow> uuid option \<Rightarrow> cash_alert \<times> store \<times> payment_screen" where
  "confirmCashPayment scr st user =
     (case (scr_admission scr, user) of
        (Some admission, Some uid) \<Rightarrow>
          if existingCashPayment scr \<noteq> None then (RequestAlreadySubmitted, st, scr)
          else
            (case select_pending_cash_payment st uid (adm_id admission) of
               Some existingPayment \<Rightarrow> (RequestAlreadyExists, st, scr)
             | None \<Rightarrow>
                 (case insert_cash_payment st uid None (Some (adm_id admission))
                         (total_amount admission) CashPending of
                    Inl cashPaymentError \<Rightarrow> (CashError, st, scr)
                  | Inr (cashPaymentData, st1) \<Rightarrow>
                      (let scr1 = scr\<lparr>existingCashPayment := Some cashPaymentData\<rparr>;
                           st2 = (case update_admission_pending st1 (adm_id admission) of
                                    Inl admissionUpdateError \<Rightarrow> st1
                                  | Inr st' \<Rightarrow> st')
                       in (CashPaymentSubmitted, st2, scr1))))
      | _ \<Rightarrow> (NoCashAlert, st, scr))"

text \<open>The duplicate refusals of the two screens.\<close>

fun is_duplicate_request :: "cash_alert \<Rightarrow> bool" where
  "is_duplicate_request RequestAlreadySubmitted = True"
| "is_duplicate_request RequestAlreadyExists = True"
| "is_duplicate_request other = False"

text \<open>Submitting a cash payment for an admission: the screen is opened on the
  admission and the user confirms.\<close>

definition submitCashPayment :: "store \<Rightarrow> uuid \<Rightarrow> admission \<Rightarrow> cash_alert \<times> store" where
  "submitCashPayment st uid a =
     (case confirmCashPayment (fetchAdmission st uid (Some a)) st (Some uid) of
        (result, st', scr') \<Rightarrow> (result, st'))"

section \<open>Attendance: \<^verbatim>\<open>AttendanceScreen\<close>\<close>

text \<open>\<^verbatim>\<open>todayAttendance\<close>, as \<^verbatim>\<open>fetchData\<close> loads it.\<close>

definition fetch_todayAttendance :: "store \<Rightarrow> uuid \<Rightarrow> date \<Rightarrow> attendance list" where
  "fetch_todayAttendance st uid today =
     filter (\<lambda>r. att_user_id r = uid \<and> att_date r = today) (attendance_rows st)"

datatype attendance_alert =
    NoAttendanceAlert
  | InvalidTime
  | AlreadyCheckedIn
  | ShiftCompleted
  | AttendanceSuccess
  | AttendanceError

text \<open>\<^verbatim>\<open>handleCheckIn(shift)\<close>. \<^verbatim>\<open>isCurrentTimeInShift\<close> comes from
  \<^verbatim>\<open>utils/shiftTimeUtils\<close>, which is not among the sources: its answer for the
  current time is the argument \<open>isCurrentTimeInShift\<close>.\<close>

definition handleCheckIn ::
  "attendance list \<Rightarrow> (string \<Rightarrow> bool) \<Rightarrow> store \<Rightarrow> uuid option \<Rightarrow> admission option \<Rightarrow> string
     \<Rightarrow> timestamp \<Rightarrow> date \<Rightarrow> attendance_alert \<times> store" where
  "handleCheckIn todayAttendance isCurrentTimeInShift st user admission shift now today =
     (case (user, admission) of
        (Some uid, Some a) \<Rightarrow>
          if \<not> isCurrentTimeInShift shift then (InvalidTime, st)
          else if list_ex (\<lambda>record. att_shift record = shift \<and> check_in_time record \<noteq> None
                                    \<and> check_out_time record = None) todayAttendance
          then (AlreadyCheckedIn, st)
          else if list_ex (\<lambda>record. att_shift record = shift \<and> check_in_time record \<noteq> None
                                    \<and> check_out_time record \<noteq> None) todayAttendance
          then (ShiftCompleted, st)
          else
            (case insert_attendance st uid shift now today of
               Inl error \<Rightarrow> (AttendanceError, st)
             | Inr st' \<Rightarrow> (AttendanceSuccess, st'))
      | _ \<Rightarrow> (NoAttendanceAlert, st))"

text \<open>\<^verbatim>\<open>handleCheckOut(attendanceId, shift)\<close>\<close>

definition handleCheckOut ::
  "(string \<Rightarrow> bool) \<Rightarrow> store \<Rightarrow> uuid option \<Rightarrow> uuid \<Rightarrow> string \<Rightarrow> timestamp
     \<Rightarrow> attendance_alert \<times> store" where
  "handleCheckOut isCurrentTimeInShift st user attendanceId shift now =
     (case user of
        None \<Rightarrow> (NoAttendanceAlert, st)
      | Some uid \<Rightarrow>
          if \<not> isCurrentTimeInShift shift then (InvalidTime, st)
          else
            (case update_check_out st attendanceId now of
               Inl error \<Rightarrow> (AttendanceError, st)
             | Inr st' \<Rightarrow> (AttendanceSuccess, st')))"

text \<open>The operation \<^verbatim>\<open>checkIn(userId, shift, now)\<close>: the screen of a user with a
  loaded admission fetches today's rows and the user checks in.\<close>

definition checkIn ::
  "(string \<Rightarrow> bool) \<Rightarrow> store \<Rightarrow> uuid \<Rightarrow> admission \<Rightarrow> string \<Rightarrow> timestamp \<Rightarrow> date
     \<Rightarrow> attendance_alert \<times> store" where
  "checkIn isCurrentTimeInShift st uid a shift now today =
     handleCheckIn (fetch_todayAttendance st uid today) isCurrentTimeInShift st (Some uid)
       (Some a) shift now today"

section \<open>Seat availability: \<^verbatim>\<open>HomeScreen.fetchData\<close>\<close>

text \<open>An entry of the constant \<^verbatim>\<open>SHIFTS\<close> of \<^verbatim>\<open>types/shifts\<close>; the constant is not
  among the sources and is an argument of the model.\<close>

record shift_info =
  shift_id :: string
  shift_name :: string
  shift_price :: int

record shift_availability =
  av_shift :: string
  shiftName :: string
  totalSeats :: int
  bookedSeats :: int
  availableSeats :: int
  av_price :: int

text \<open>\<^verbatim>\<open>const totalSeats = 50\<close>\<close>

definition totalSeats_const :: int where
  "totalSeats_const = 50"

text \<open>The availability part of \<^verbatim>\<open>fetchData\<close>; the state \<^verbatim>\<open>shiftAvailability\<close>
  starts as the empty array and stays so without a signed-in user.\<close>

definition fetchData_home ::
  "store \<Rightarrow> uuid option \<Rightarrow> shift_info list \<Rightarrow> date \<Rightarrow> shift_availability list" where
  "fetchData_home st user SHIFTS today =
     (case user of
        None \<Rightarrow> []
      | Some uid \<Rightarrow>
          (let bookingsData = filter (\<lambda>b. booking_date b = today \<and> booking_status b = Booked)
                                (seat_bookings st)
           in map (\<lambda>shift.
                     (let bookedCount =
                            int (length (filter (\<lambda>booking. sb_shift booking = shift_id shift)
                                           bookingsData))
                      in \<lparr>av_shift = shift_id shift, shiftName = shift_name shift,
                          totalSeats = totalSeats_const, bookedSeats = bookedCount,
                          availableSeats = totalSeats_const - bookedCount,
                          av_price = shift_price shift\<rparr>)) SHIFTS))"

section \<open>The words of the specification\<close>

text \<open>The absence sweep as the specification words it: one record for each paid
  admission and each of its selected shifts, kept when the shift has ended at the
  given hour and no attendance row of that user, shift and date has a check-in
  time. \<open>asked\<close> is the date as the request wrote it, \<open>d\<close> the day it denotes.\<close>

definition flagged_spec :: "store \<Rightarrow> string \<Rightarrow> date \<Rightarrow> nat \<Rightarrow> absent_student list" where
  "flagged_spec st asked d h =
     concat (map (\<lambda>a.
                map (\<lambda>s. \<lparr>as_user_id = adm_user_id a, as_shift = s, as_date = asked,
                           as_status = ''absent'', as_reason = ''no_checkin''\<rparr>)
                  (filter (\<lambda>s. shiftEnded s h
                                \<and> \<not> list_ex (\<lambda>r. att_user_id r = adm_user_id a \<and> att_shift r = s
                                                  \<and> att_date r = d \<and> check_in_time r \<noteq> None)
                                      (attendance_rows st))
                     (selected_shifts a)))
              (filter (\<lambda>a. payment_status a = Paid) (admissions st)))"

text \<open>An open row has a check-in and no check-out time, a closed row has both.\<close>

definition open_row_exists :: "store \<Rightarrow> uuid \<Rightarrow> string \<Rightarrow> date \<Rightarrow> bool" where
  "open_row_exists st uid shift d =
     list_ex (\<lambda>r. att_user_id r = uid \<and> att_shift r = shift \<and> att_date r = d
                  \<and> check_in_time r \<noteq> None \<and> check_out_time r = None) (attendance_rows st)"

definition closed_row_exists :: "store \<Rightarrow> uuid \<Rightarrow> string \<Rightarrow> date \<Rightarrow> bool" where
  "closed_row_exists st uid shift d =
     list_ex (\<lambda>r. att_user_id r = uid \<and> att_shift r = shift \<and> att_date r = d
                  \<and> check_in_time r \<noteq> None \<and> check_out_time r \<noteq> None) (attendance_rows st)"

text \<open>Rows of status \<^verbatim>\<open>present\<close> come from check-ins only, so each has a check-in
  time.\<close>

definition present_rows_checked_in :: "store \<Rightarrow> bool" where
  "present_rows_checked_in st =
     list_all (\<lambda>r. att_status r = Present \<longrightarrow> check_in_time r \<noteq> None) (attendance_rows st)"

text \<open>The pending cash payments of a user for an admission.\<close>

definition pending_for_admission :: "store \<Rightarrow> uuid \<Rightarrow> uuid \<Rightarrow> cash_payment list" where
  "pending_for_admission st uid aid =
     filter (\<lambda>p. cp_user_id p = uid \<and> admission_id p = Some aid \<and> status p = CashPending)
       (cash_payments st)"

text \<open>The booked rows of today for a shift, and the booked rows of a user.\<close>

definition booked_rows :: "store \<Rightarrow> string \<Rightarrow> date \<Rightarrow> seat_booking list" where
  "booked_rows st shift d =
     filter (\<lambda>b. booking_status b = Booked \<and> sb_shift b = shift \<and> booking_date b = d)
       (seat_bookings st)"

definition holds_booked_row :: "store \<Rightarrow> uuid \<Rightarrow> string \<Rightarrow> date \<Rightarrow> bool" where
  "holds_booked_row st uid shift d =
     list_ex (\<lambda>b. sb_user_id b = uid \<and> sb_shift b = shift \<and> booking_date b = d
                  \<and> booking_status b = Booked) (seat_bookings st)"

definition holds_pending_row :: "store \<Rightarrow> uuid \<Rightarrow> string \<Rightarrow> date \<Rightarrow> bool" where
  "holds_pending_row st uid shift d =
     list_ex (\<lambda>b. sb_user_id b = uid \<and> sb_shift b = shift \<and> booking_date b = d
                  \<and> booking_status b = BookingPending) (seat_bookings st)"

definition has_pending_booking_payment :: "store \<Rightarrow> uuid \<Rightarrow> bool" where
  "has_pending_booking_payment st uid =
     list_ex (\<lambda>p. cp_user_id p = uid \<and> status p = CashPending \<and> booking_id p \<noteq> None)
       (cash_payments st)"

text \<open>The primary key of \<^verbatim>\<open>seat_bookings\<close>.\<close>

definition booking_ids_distinct :: "store \<Rightarrow> bool" where
  "booking_ids_distinct st = distinct (map sb_id (seat_bookings st))"

text \<open>The table \<^verbatim>\<open>seat_bookings\<close> as its key and its partial unique index leave it:
  no two rows share an \<^verbatim>\<open>id\<close>, and two booked rows of one seat, shift and date are
  one row.\<close>

definition seat_table_ok :: "seat_booking list \<Rightarrow> bool" where
  "seat_table_ok rows =
     (distinct (map sb_id rows)
      \<and> (\<forall>x\<in>set rows. \<forall>y\<in>set rows.
            booking_status x = Booked \<and> booking_status y = Booked \<and> same_seat x y
            \<longrightarrow> sb_id x = sb_id y))"

subsection \<open>Two approvals for one seat\<close>

text \<open>The statements of an approval that neither touch \<^verbatim>\<open>seat_bookings\<close> nor can be
  refused.\<close>

fun harmless :: "stmt \<Rightarrow> bool" where
  "harmless (UpdateCashPayment pid cstatus admin t) = True"
| "harmless (InsertAdminLog l) = True"
| "harmless (InsertNotification n) = True"
| "harmless other = False"

text \<open>An approval whose update of booking \<open>b\<close> is still to come, and one that has
  nothing but harmless statements left.\<close>

definition waiting :: "uuid \<Rightarrow> thread \<Rightarrow> bool" where
  "waiting b t =
     (\<exists>pre post. t = Running (pre @ UpdateBookingStatus b Booked # post)
                  \<and> list_all harmless pre \<and> list_all harmless post)"

definition past :: "thread \<Rightarrow> bool" where
  "past t = (\<exists>ss. t = Running ss \<and> list_all harmless ss)"

definition is_booked :: "store \<Rightarrow> uuid \<Rightarrow> bool" where
  "is_booked st b = list_ex (\<lambda>r. sb_id r = b \<and> booking_status r = Booked) (seat_bookings st)"

text \<open>Where the approval of booking \<open>b\<close> stands, \<open>b'\<close> being the rival request: still
  before its update, past it with the seat won, or thrown out because the rival holds
  the seat.\<close>

definition phase_ok :: "uuid \<Rightarrow> uuid \<Rightarrow> thread \<Rightarrow> store \<Rightarrow> bool" where
  "phase_ok b b' t st =
     ((waiting b t \<and> \<not> is_booked st b)
      \<or> (past t \<and> is_booked st b \<and> \<not> is_booked st b')
      \<or> (t = Thrown \<and> \<not> is_booked st b \<and> is_booked st b'))"

text \<open>Two different rows \<open>b\<close> and \<open>b'\<close> ask for the seat of \<open>k\<close>, and no third row holds
  it as booked.\<close>

definition contested :: "uuid \<Rightarrow> uuid \<Rightarrow> seat_booking \<Rightarrow> store \<Rightarrow> bool" where
  "contested b b' k st =
     (b \<noteq> b' \<and> distinct (map sb_id (seat_bookings st))
      \<and> list_ex (\<lambda>r. sb_id r = b \<and> same_seat r k) (seat_bookings st)
      \<and> list_ex (\<lambda>r. sb_id r = b' \<and> same_seat r k) (seat_bookings st)
      \<and> list_all (\<lambda>r. sb_id r \<noteq> b \<and> sb_id r \<noteq> b' \<and> same_seat r k
                      \<longrightarrow> booking_status r \<noteq> Booked) (seat_bookings st))"

text \<open>The number of statements an approval has still to send.\<close>

fun todo :: "thread \<Rightarrow> nat" where
  "todo (Running ss) = length ss"
| "todo Thrown = 0"

section \<open>Example stores\<close>


text \<open>A conversion that knows two spellings of 10 January 2025 and the usual one of the
  day after, and refuses every other text.\<close>

definition date_in_example :: "string \<Rightarrow> date option" where
  "date_in_example s =
     (if s = ''2025-01-10'' then Some ''2025-01-10''
      else if s = ''2025-1-10'' then Some ''2025-01-10''
      else if s = ''2025-01-11'' then Some ''2025-01-11''
      else None)"

text \<open>Users 7 and 9 have paid admissions; on 10 January user 7 has checked in for the
  morning shift.\<close>

definition checked_in_store :: store where
  "checked_in_store = empty_store\<lparr>
     admissions :=
       [\<lparr>adm_id = 1, adm_user_id = 7, course_name = ''UPSC'', duration = 1,
         selected_shifts = [''morning''], total_amount = 299, payment_status = Paid,
         payment_date = Some 100, start_date = Some 100, end_date = Some 200\<rparr>,
        \<lparr>adm_id = 2, adm_user_id = 9, course_name = ''SSC'', duration = 1,
         selected_shifts = [''morning'', ''noon''], total_amount = 549, payment_status = Paid,
         payment_date = Some 100, start_date = Some 100, end_date = Some 200\<rparr>],
     attendance_rows :=
       [\<lparr>att_id = 1, att_user_id = 7, att_shift = ''morning'', check_in_time = Some 800,
         check_out_time = None, att_date = ''2025-01-10'', att_status = Present,
         reason = None\<rparr>]\<rparr>"

text \<open>An admission of 549 rupees that waits for its payment.\<close>

definition admission_X :: admission where
  "admission_X = \<lparr>adm_id = 3, adm_user_id = 7, course_name = ''SSC'', duration = 3,
     selected_shifts = [''morning'', ''noon''], total_amount = 549,
     payment_status = PaymentPending, payment_date = None, start_date = None,
     end_date = None\<rparr>"

text \<open>The store that holds this admission and no cash payment, and the store after two
  sessions of user 7 have each inserted a pending cash payment for it.\<close>

definition admission_X_store :: store where
  "admission_X_store = empty_store\<lparr>admissions := [admission_X]\<rparr>"

definition pending_A :: cash_payment where
  "pending_A = \<lparr>cp_id = 1, cp_user_id = 7, booking_id = None, admission_id = Some 3,
     amount = 549, status = CashPending, approved_by = None, approved_at = None\<rparr>"

definition pending_B :: cash_payment where
  "pending_B = \<lparr>cp_id = 2, cp_user_id = 7, booking_id = None, admission_id = Some 3,
     amount = 549, status = CashPending, approved_by = None, approved_at = None\<rparr>"

definition double_pending_store :: store where
  "double_pending_store = admission_X_store\<lparr>cash_payments := [pending_A, pending_B]\<rparr>"

text \<open>Seat A12 of the morning shift is booked by user 10; user 11 has asked for the same
  seat and the cash payment of that request is pending.\<close>

definition taken_seat_payment :: cash_payment where
  "taken_seat_payment = \<lparr>cp_id = 5, cp_user_id = 11, booking_id = Some 2, admission_id = None,
     amount = 50, status = CashPending, approved_by = None, approved_at = None\<rparr>"

definition taken_seat_store :: store where
  "taken_seat_store = empty_store\<lparr>
     seat_bookings :=
       [\<lparr>sb_id = 1, sb_user_id = 10, sb_shift = ''morning'', seat_number = ''A12'',
         booking_status = Booked, booking_date = ''2025-01-10''\<rparr>,
        \<lparr>sb_id = 2, sb_user_id = 11, sb_shift = ''morning'', seat_number = ''A12'',
         booking_status = BookingPending, booking_date = ''2025-01-10''\<rparr>],
     cash_payments := [taken_seat_payment]\<rparr>"

text \<open>The same store once the approval of that payment has failed: the payment is
  approved, the request of user 11 is still pending.\<close>

definition stuck_request_store :: store where
  "stuck_request_store = taken_seat_store\<lparr>
     cash_payments := [taken_seat_payment\<lparr>status := Approved, approved_by := Some 1,
                                            approved_at := Some 900\<rparr>]\<rparr>"

text \<open>A paid admission whose owner has also filed a cash payment for it.\<close>

definition paid_admission :: admission where
  "paid_admission = \<lparr>adm_id = 4, adm_user_id = 8, course_name = ''NEET'', duration = 1,
     selected_shifts = [''evening''], total_amount = 299, payment_status = Paid,
     payment_date = Some 100, start_date = Some 100, end_date = Some 200\<rparr>"

definition admission_payment :: cash_payment where
  "admission_payment = \<lparr>cp_id = 6, cp_user_id = 8, booking_id = None, admission_id = Some 4,
     amount = 299, status = CashPending, approved_by = None, approved_at = None\<rparr>"

definition paid_admission_store :: store where
  "paid_admission_store = empty_store\<lparr>admissions := [paid_admission],
     cash_payments := [admission_payment]\<rparr>"

text \<open>User 7 has an open row for the evening shift and a closed row for the noon
  shift.\<close>

definition attendance_store :: store where
  "attendance_store = empty_store\<lparr>attendance_rows :=
     [\<lparr>att_id = 1, att_user_id = 7, att_shift = ''noon'', check_in_time = Some 1200,
       check_out_time = Some 1500, att_date = ''2025-01-10'', att_status = Present,
       reason = None\<rparr>,
      \<lparr>att_id = 2, att_user_id = 7, att_shift = ''evening'', check_in_time = Some 1800,
       check_out_time = None, att_date = ''2025-01-10'', att_status = Present,
       reason = None\<rparr>]\<rparr>"

text \<open>Users 10 and 11 have both asked for seat A12 of the morning shift; both requests
  and both cash payments are pending.\<close>

definition request_10 :: seat_booking where
  "request_10 = \<lparr>sb_id = 1, sb_user_id = 10, sb_shift = ''morning'', seat_number = ''A12'',
     booking_status = BookingPending, booking_date = ''2025-01-10''\<rparr>"

definition request_11 :: seat_booking where
  "request_11 = \<lparr>sb_id = 2, sb_user_id = 11, sb_shift = ''morning'', seat_number = ''A12'',
     booking_status = BookingPending, booking_date = ''2025-01-10''\<rparr>"

definition payment_10 :: cash_payment where
  "payment_10 = \<lparr>cp_id = 5, cp_user_id = 10, booking_id = Some 1, admission_id = None,
     amount = 50, status = CashPending, approved_by = None, approved_at = None\<rparr>"

definition payment_11 :: cash_payment where
  "payment_11 = \<lparr>cp_id = 6, cp_user_id = 11, booking_id = Some 2, admission_id = None,
     amount = 50, status = CashPending, approved_by = None, approved_at = None\<rparr>"

definition contested_store :: store where
  "contested_store = empty_store\<lparr>seat_bookings := [request_10, request_11],
     cash_payments := [payment_10, payment_11]\<rparr>"

section \<open>Properties\<close>

subsection \<open>The absence sweep\<close>

text \<open>C6: the end-of-shift predicate of the absence sweep. For the night shift it holds
  exactly for hours in \<open>[5, 21)\<close>; it is the negation of being inside the overnight
  window, which contains 23:59 and 04:59 and excludes 05:00 and 20:59; for morning,
  noon and evening it holds exactly from 11, 16 and 21 o'clock on.\<close>

theorem shiftHasEnded_thresholds:
  "shiftHasEnded ''night'' now = (hours now \<ge> 5 \<and> hours now < 21)
   \<and> shiftHasEnded ''night'' now = (\<not> isNowWithin_night now)
   \<and> isNowWithin_night \<lparr>hours = 23, minutes = 59\<rparr>
   \<and> isNowWithin_night \<lparr>hours = 4, minutes = 59\<rparr>
   \<and> \<not> isNowWithin_night \<lparr>hours = 5, minutes = 0\<rparr>
   \<and> \<not> isNowWithin_night \<lparr>hours = 20, minutes = 59\<rparr>
   \<and> shiftHasEnded ''morning'' now = (hours now \<ge> 11)
   \<and> shiftHasEnded ''noon'' now = (hours now \<ge> 16)
   \<and> shiftHasEnded ''evening'' now = (hours now \<ge> 21)"
  by (simp add: shiftHasEnded_def shiftEnded_def isNowWithin_night_def)

lemma check_shifts_append:
  "check_shifts recs d h uid shifts acc =
     acc @ map (\<lambda>s. \<lparr>as_user_id = uid, as_shift = s, as_date = d,
                      as_status = ''absent'', as_reason = ''no_checkin''\<rparr>)
             (filter (\<lambda>s. shiftEnded s h \<and> \<not> hasCheckedIn recs uid s) shifts)"
  by (induction shifts arbitrary: acc) simp_all

lemma check_admissions_append:
  "check_admissions recs d h adms acc =
     acc @ concat (map (\<lambda>a. map (\<lambda>s. \<lparr>as_user_id = adm_user_id a, as_shift = s, as_date = d,
                                        as_status = ''absent'', as_reason = ''no_checkin''\<rparr>)
                          (filter (\<lambda>s. shiftEnded s h \<and> \<not> hasCheckedIn recs (adm_user_id a) s)
                             (selected_shifts a))) adms)"
  by (induction adms arbitrary: acc) (simp_all add: check_shifts_append)

lemma check_on_date:
  "check_admissions (filter (\<lambda>r. att_date r = d) (attendance_rows st)) asked h
     (select_paid_admissions st) [] = flagged_spec st asked d h"
proof -
  have "hasCheckedIn (filter (\<lambda>r. att_date r = d) (attendance_rows st)) uid s =
          list_ex (\<lambda>r. att_user_id r = uid \<and> att_shift r = s \<and> att_date r = d
                       \<and> check_in_time r \<noteq> None) (attendance_rows st)" for uid s
    by (auto simp: hasCheckedIn_def list_ex_iff)
  then show ?thesis
    by (simp add: check_admissions_append flagged_spec_def select_paid_admissions_def)
qed

lemma POST_accepted_date:
  assumes "date_in (checkDate_of date_member today) = Some d"
  shows "POST date_in st (Some date_member) today now =
           (Json200 \<lparr>success = True, report_date = checkDate_of date_member today,
                     absentCount = length (flagged_spec st (checkDate_of date_member today) d
                                             (hours now)),
                     absentStudents = flagged_spec st (checkDate_of date_member today) d
                                        (hours now)\<rparr>, st)"
  using assms
  by (simp add: POST_def Let_def select_attendance_on_def check_on_date)

text \<open>A date that the store refuses, and a request without a body, are answered 500.\<close>

lemma POST_refused:
  "(date_in (checkDate_of date_member today) = None
      \<longrightarrow> POST date_in st (Some date_member) today now
            = (Json500 ''Failed to check absent students'', st))
   \<and> POST date_in st None today now = (Json500 ''Failed to check absent students'', st)"
  by (simp add: POST_def Let_def select_attendance_on_def)

text \<open>C4: for a request whose body names a date, one the store takes for the day \<open>d\<close>,
  \<^verbatim>\<open>POST\<close> answers \<^verbatim>\<open>success: true\<close>, that date as the request wrote it, and as
  \<^verbatim>\<open>absentStudents\<close> exactly the records the specification words, one for each paid
  admission and selected shift that has ended at the hour of the call and has no
  check-in on the day \<open>d\<close>; \<^verbatim>\<open>absentCount\<close> is the length of that list. For a body
  without a date, or with an empty one, the same holds with today's date.\<close>

theorem POST_report:
  "(asked \<noteq> [] \<and> date_in asked = Some d
      \<longrightarrow> fst (POST date_in st (Some (Some asked)) today now) =
            Json200 \<lparr>success = True, report_date = asked,
                     absentCount = length (flagged_spec st asked d (hours now)),
                     absentStudents = flagged_spec st asked d (hours now)\<rparr>)
   \<and> (date_in today = Some d'
      \<longrightarrow> fst (POST date_in st (Some None) today now) =
            Json200 \<lparr>success = True, report_date = today,
                     absentCount = length (flagged_spec st today d' (hours now)),
                     absentStudents = flagged_spec st today d' (hours now)\<rparr>
          \<and> fst (POST date_in st (Some (Some [])) today now) =
            Json200 \<lparr>success = True, report_date = today,
                     absentCount = length (flagged_spec st today d' (hours now)),
                     absentStudents = flagged_spec st today d' (hours now)\<rparr>)"
proof (intro conjI impI)
  assume h: "asked \<noteq> [] \<and> date_in asked = Some d"
  then have "checkDate_of (Some asked) today = asked"
    by (simp add: checkDate_of_def)
  then show "fst (POST date_in st (Some (Some asked)) today now) =
            Json200 \<lparr>success = True, report_date = asked,
                     absentCount = length (flagged_spec st asked d (hours now)),
                     absentStudents = flagged_spec st asked d (hours now)\<rparr>"
    using h POST_accepted_date[of date_in "Some asked" today d st now] by simp
next
  assume h: "date_in today = Some d'"
  have "checkDate_of None today = today" "checkDate_of (Some []) today = today"
    by (simp_all add: checkDate_of_def)
  then show "fst (POST date_in st (Some None) today now) =
            Json200 \<lparr>success = True, report_date = today,
                     absentCount = length (flagged_spec st today d' (hours now)),
                     absentStudents = flagged_spec st today d' (hours now)\<rparr>"
    and "fst (POST date_in st (Some (Some [])) today now) =
            Json200 \<lparr>success = True, report_date = today,
                     absentCount = length (flagged_spec st today d' (hours now)),
                     absentStudents = flagged_spec st today d' (hours now)\<rparr>"
    using h POST_accepted_date[of date_in None today d' st now]
      POST_accepted_date[of date_in "Some []" today d' st now]
    by simp_all
qed

theorem POST_report_witness:
  "fst (POST date_in_example checked_in_store (Some (Some ''2025-1-10'')) ''2025-01-11''
          \<lparr>hours = 12, minutes = 30\<rparr>) =
     Json200 \<lparr>success = True, report_date = ''2025-1-10'', absentCount = 1,
              absentStudents = [\<lparr>as_user_id = 9, as_shift = ''morning'',
                                 as_date = ''2025-1-10'', as_status = ''absent'',
                                 as_reason = ''no_checkin''\<rparr>]\<rparr>
   \<and> fst (POST date_in_example checked_in_store (Some None) ''2025-01-11''
            \<lparr>hours = 12, minutes = 30\<rparr>) =
     Json200 \<lparr>success = True, report_date = ''2025-01-11'', absentCount = 2,
              absentStudents = [\<lparr>as_user_id = 7, as_shift = ''morning'',
                                 as_date = ''2025-01-11'', as_status = ''absent'',
                                 as_reason = ''no_checkin''\<rparr>,
                                \<lparr>as_user_id = 9, as_shift = ''morning'',
                                 as_date = ''2025-01-11'', as_status = ''absent'',
                                 as_reason = ''no_checkin''\<rparr>]\<rparr>"
proof -
  have a: "''2025-1-10'' \<noteq> [] \<and> date_in_example ''2025-1-10'' = Some ''2025-01-10''"
    and b: "date_in_example ''2025-01-11'' = Some ''2025-01-11''"
    by (simp_all add: date_in_example_def)
  have f1: "flagged_spec checked_in_store ''2025-1-10'' ''2025-01-10'' 12 =
              [\<lparr>as_user_id = 9, as_shift = ''morning'', as_date = ''2025-1-10'',
                as_status = ''absent'', as_reason = ''no_checkin''\<rparr>]"
    and f2: "flagged_spec checked_in_store ''2025-01-11'' ''2025-01-11'' 12 =
              [\<lparr>as_user_id = 7, as_shift = ''morning'', as_date = ''2025-01-11'',
                as_status = ''absent'', as_reason = ''no_checkin''\<rparr>,
               \<lparr>as_user_id = 9, as_shift = ''morning'', as_date = ''2025-01-11'',
                as_status = ''absent'', as_reason = ''no_checkin''\<rparr>]"
    by (simp_all add: flagged_spec_def checked_in_store_def empty_store_def shiftEnded_def)
  show ?thesis
    using POST_report[of "''2025-1-10''" date_in_example "''2025-01-10''" checked_in_store
            "''2025-01-11''" "\<lparr>hours = 12, minutes = 30\<rparr>" "''2025-01-11''"] a b
    by (simp add: f1 f2)
qed




subsection \<open>Seat availability\<close>

text \<open>C7: for every shift of the catalogue the home screen reports 50 minus the number
  of rows of that shift and day with status \<^verbatim>\<open>booked\<close>; taking the pending rows out of
  the table, or adding one, changes nothing of what it reports.\<close>

theorem availability_is_capacity_minus_booked:
  "map availableSeats (fetchData_home st (Some uid) SHIFTS today) =
     map (\<lambda>shift. 50 - int (length (booked_rows st (shift_id shift) today))) SHIFTS
   \<and> fetchData_home
        (st\<lparr>seat_bookings := filter (\<lambda>b. booking_status b \<noteq> BookingPending) (seat_bookings st)\<rparr>)
        (Some uid) SHIFTS today = fetchData_home st (Some uid) SHIFTS today
   \<and> fetchData_home
        (st\<lparr>seat_bookings := seat_bookings st @ [r\<lparr>booking_status := BookingPending\<rparr>]\<rparr>)
        (Some uid) SHIFTS today = fetchData_home st (Some uid) SHIFTS today"
proof (intro conjI)
  show "map availableSeats (fetchData_home st (Some uid) SHIFTS today) =
          map (\<lambda>shift. 50 - int (length (booked_rows st (shift_id shift) today))) SHIFTS"
    by (auto simp: fetchData_home_def Let_def booked_rows_def totalSeats_const_def
          intro!: arg_cong[where f = length] filter_cong)
next
  show "fetchData_home
          (st\<lparr>seat_bookings := filter (\<lambda>b. booking_status b \<noteq> BookingPending) (seat_bookings st)\<rparr>)
          (Some uid) SHIFTS today = fetchData_home st (Some uid) SHIFTS today"
    by (auto simp: fetchData_home_def Let_def intro!: arg_cong[where f = length] filter_cong)
next
  show "fetchData_home
          (st\<lparr>seat_bookings := seat_bookings st @ [r\<lparr>booking_status := BookingPending\<rparr>]\<rparr>)
          (Some uid) SHIFTS today = fetchData_home st (Some uid) SHIFTS today"
    by (simp add: fetchData_home_def Let_def)
qed

subsection \<open>Approving and rejecting cash payments\<close>

text \<open>C9: rejecting a cash payment linked to an admission leaves every admission row as it
  was but for \<^verbatim>\<open>payment_status\<close> of the linked one, which becomes \<^verbatim>\<open>pending\<close>; the
  start, end and payment dates of all rows are the ones they had.\<close>

theorem reject_admission_frame:
  assumes "admission_id payment = Some aid"
  shows "admissions (snd (handlePaymentAction st admin payment Reject now endDateAfter)) =
           map (\<lambda>a. if adm_id a = aid then a\<lparr>payment_status := PaymentPending\<rparr> else a)
             (admissions st)
         \<and> map start_date (admissions (snd (handlePaymentAction st admin payment Reject now
                                               endDateAfter))) = map start_date (admissions st)
         \<and> map end_date (admissions (snd (handlePaymentAction st admin payment Reject now
                                             endDateAfter))) = map end_date (admissions st)
         \<and> map payment_date (admissions (snd (handlePaymentAction st admin payment Reject now
                                                 endDateAfter))) = map payment_date (admissions st)"
proof -
  have eq: "admissions (snd (handlePaymentAction st admin payment Reject now endDateAfter)) =
           map (\<lambda>a. if adm_id a = aid then a\<lparr>payment_status := PaymentPending\<rparr> else a)
             (admissions st)"
    using assms
    by (simp add: handlePaymentAction_def reject_branch_def update_cash_payment_def
          delete_seat_booking_def update_admission_pending_def insert_notification_def
          insert_admin_log_def Let_def split: option.splits)
  show ?thesis
    unfolding eq by (simp add: comp_def if_distrib cong: if_cong)
qed

theorem reject_admission_frame_witness:
  "admission_id admission_payment = Some 4
   \<and> admissions (snd (handlePaymentAction paid_admission_store (Some 1) admission_payment Reject
                        900 (\<lambda>n. 900 + n))) =
       [\<lparr>adm_id = 4, adm_user_id = 8, course_name = ''NEET'', duration = 1,
         selected_shifts = [''evening''], total_amount = 299, payment_status = PaymentPending,
         payment_date = Some 100, start_date = Some 100, end_date = Some 200\<rparr>]"
  using reject_admission_frame[of admission_payment 4 paid_admission_store "Some 1" 900
          "\<lambda>n. 900 + n"]
  by (simp add: admission_payment_def paid_admission_store_def paid_admission_def
        empty_store_def)

lemma update_booking_status_refused:
  assumes "r \<in> set (seat_bookings st)" "sb_id r = bid"
      and "x \<in> set (seat_bookings st)" "sb_id x \<noteq> bid" "booking_status x = Booked"
      and "same_seat x r"
  shows "update_booking_status st bid Booked = Inl UniqueViolation"
proof -
  have "x \<in> set (filter (\<lambda>r. sb_id r \<noteq> bid) (seat_bookings st))"
    using assms by simp
  moreover have "same_seat x (r\<lparr>booking_status := Booked\<rparr>)"
    using assms by (simp add: same_seat_def)
  ultimately have "violates_unique_booked (filter (\<lambda>r. sb_id r \<noteq> bid) (seat_bookings st))
                     (r\<lparr>booking_status := Booked\<rparr>)"
    using assms unfolding violates_unique_booked_def list_ex_iff by auto
  then show ?thesis
    using assms unfolding update_booking_status_def Let_def list_ex_iff by auto
qed

lemma update_booking_status_cash_irrelevant:
  "update_booking_status (st\<lparr>cash_payments := cps\<rparr>) bid s =
     map_sum id (\<lambda>st'. st'\<lparr>cash_payments := cps\<rparr>) (update_booking_status st bid s)"
  by (simp add: update_booking_status_def Let_def)

lemma approve_branch_keeps_payments:
  "approve_branch st payment now endDateAfter = Inl st_thrown
     \<Longrightarrow> cash_payments st_thrown = cash_payments st"
  by (auto simp: approve_branch_def update_booking_status_def select_admission_duration_def
        update_admission_paid_def Let_def split: option.splits sum.splits if_splits)

lemma reject_branch_never_throws:
  "reject_branch st admin payment \<noteq> Inl st_thrown"
  by (simp add: reject_branch_def delete_seat_booking_def update_admission_pending_def
        split: option.splits)

text \<open>C10: the payment row is written first, and the one \<^verbatim>\<open>catch\<close> undoes nothing.
  Whenever the operation reports an error, the payment row already carries the new
  status (approved or rejected), the administrator and the time. In particular, when
  the payment is linked to a booking and another row holds that seat as booked, the
  approval reports an error, the payment is approved and the table of bookings is as it
  was, the linked request still pending.\<close>

theorem payment_status_not_reverted:
  "(fst (handlePaymentAction st admin payment act now endDateAfter) = AlertError
      \<longrightarrow> cash_payments (snd (handlePaymentAction st admin payment act now endDateAfter)) =
            map (\<lambda>p. if cp_id p = cp_id payment
                      then p\<lparr>status := (if act = Approve then Approved else Rejected),
                             approved_by := admin, approved_at := Some now\<rparr>
                      else p) (cash_payments st))
   \<and> (booking_id payment = Some bid \<and> r \<in> set (seat_bookings st) \<and> sb_id r = bid
        \<and> x \<in> set (seat_bookings st) \<and> sb_id x \<noteq> bid \<and> booking_status x = Booked
        \<and> same_seat x r
      \<longrightarrow> fst (handlePaymentAction st admin payment Approve now endDateAfter) = AlertError
          \<and> seat_bookings (snd (handlePaymentAction st admin payment Approve now endDateAfter))
              = seat_bookings st
          \<and> cash_payments (snd (handlePaymentAction st admin payment Approve now endDateAfter)) =
              map (\<lambda>p. if cp_id p = cp_id payment
                        then p\<lparr>status := Approved, approved_by := admin,
                               approved_at := Some now\<rparr>
                        else p) (cash_payments st))"
proof (intro conjI impI)
  assume err: "fst (handlePaymentAction st admin payment act now endDateAfter) = AlertError"
  show "cash_payments (snd (handlePaymentAction st admin payment act now endDateAfter)) =
            map (\<lambda>p. if cp_id p = cp_id payment
                      then p\<lparr>status := (if act = Approve then Approved else Rejected),
                             approved_by := admin, approved_at := Some now\<rparr>
                      else p) (cash_payments st)"
  proof (cases act)
    case Approve
    let ?st1 = "st\<lparr>cash_payments :=
                     map (\<lambda>p. if cp_id p = cp_id payment
                               then p\<lparr>status := Approved, approved_by := admin,
                                      approved_at := Some now\<rparr>
                               else p) (cash_payments st)\<rparr>"
    show ?thesis
    proof (cases "approve_branch ?st1 payment now endDateAfter")
      case (Inl st_thrown)
      then have "cash_payments st_thrown = cash_payments ?st1"
        by (rule approve_branch_keeps_payments)
      then show ?thesis
        unfolding Approve using Inl
        by (simp add: handlePaymentAction_def update_cash_payment_def)
    next
      case (Inr st2)
      then show ?thesis
        using err unfolding Approve
        by (simp add: handlePaymentAction_def update_cash_payment_def Let_def)
    qed
  next
    case Reject
    let ?st1 = "st\<lparr>cash_payments :=
                     map (\<lambda>p. if cp_id p = cp_id payment
                               then p\<lparr>status := Rejected, approved_by := admin,
                                      approved_at := Some now\<rparr>
                               else p) (cash_payments st)\<rparr>"
    show ?thesis
    proof (cases "reject_branch ?st1 admin payment")
      case (Inl st_thrown)
      then show ?thesis using reject_branch_never_throws by blast
    next
      case (Inr st2)
      then show ?thesis
        using err unfolding Reject
        by (simp add: handlePaymentAction_def update_cash_payment_def Let_def)
    qed
  qed
next
  assume h: "booking_id payment = Some bid \<and> r \<in> set (seat_bookings st) \<and> sb_id r = bid
        \<and> x \<in> set (seat_bookings st) \<and> sb_id x \<noteq> bid \<and> booking_status x = Booked
        \<and> same_seat x r"
  then have refused: "update_booking_status st bid Booked = Inl UniqueViolation"
    using update_booking_status_refused[of r st bid x] by blast
  have res: "handlePaymentAction st admin payment Approve now endDateAfter =
           (AlertError,
            st\<lparr>cash_payments :=
                 map (\<lambda>p. if cp_id p = cp_id payment
                           then p\<lparr>status := Approved, approved_by := admin,
                                  approved_at := Some now\<rparr>
                           else p) (cash_payments st)\<rparr>)"
    using h refused
    by (simp add: handlePaymentAction_def approve_branch_def update_cash_payment_def
          update_booking_status_cash_irrelevant)
  show "fst (handlePaymentAction st admin payment Approve now endDateAfter) = AlertError"
    and "seat_bookings (snd (handlePaymentAction st admin payment Approve now endDateAfter))
              = seat_bookings st"
    and "cash_payments (snd (handlePaymentAction st admin payment Approve now endDateAfter)) =
              map (\<lambda>p. if cp_id p = cp_id payment
                        then p\<lparr>status := Approved, approved_by := admin,
                               approved_at := Some now\<rparr>
                        else p) (cash_payments st)"
    unfolding res by simp_all
qed

theorem payment_status_not_reverted_witness:
  "fst (handlePaymentAction taken_seat_store (Some 1) taken_seat_payment Approve 900
          (\<lambda>n. 900 + n)) = AlertError
   \<and> map status (cash_payments (snd (handlePaymentAction taken_seat_store (Some 1)
                                       taken_seat_payment Approve 900 (\<lambda>n. 900 + n))))
       = [Approved]
   \<and> map booking_status (seat_bookings (snd (handlePaymentAction taken_seat_store (Some 1)
                                               taken_seat_payment Approve 900 (\<lambda>n. 900 + n))))
       = [Booked, BookingPending]"
proof -
  let ?r = "\<lparr>sb_id = 2, sb_user_id = 11, sb_shift = ''morning'', seat_number = ''A12'',
             booking_status = BookingPending, booking_date = ''2025-01-10''\<rparr>"
  let ?x = "\<lparr>sb_id = 1, sb_user_id = 10, sb_shift = ''morning'', seat_number = ''A12'',
             booking_status = Booked, booking_date = ''2025-01-10''\<rparr>"
  define res where "res = handlePaymentAction taken_seat_store (Some 1) taken_seat_payment
                            Approve 900 (\<lambda>n. 900 + n)"
  have h: "booking_id taken_seat_payment = Some 2 \<and> ?r \<in> set (seat_bookings taken_seat_store)
        \<and> sb_id ?r = 2 \<and> ?x \<in> set (seat_bookings taken_seat_store) \<and> sb_id ?x \<noteq> 2
        \<and> booking_status ?x = Booked \<and> same_seat ?x ?r"
    by (simp add: taken_seat_payment_def taken_seat_store_def empty_store_def same_seat_def)
  have "fst res = AlertError
        \<and> seat_bookings (snd res) = seat_bookings taken_seat_store
        \<and> cash_payments (snd res) =
            map (\<lambda>p. if cp_id p = cp_id taken_seat_payment
                      then p\<lparr>status := Approved, approved_by := Some 1, approved_at := Some 900\<rparr>
                      else p) (cash_payments taken_seat_store)"
    unfolding res_def
    using payment_status_not_reverted[of taken_seat_store "Some 1" taken_seat_payment Approve
            900 "\<lambda>n. 900 + n" 2 ?r ?x] h
    by blast
  then have "fst res = AlertError \<and> map status (cash_payments (snd res)) = [Approved]
             \<and> map booking_status (seat_bookings (snd res)) = [Booked, BookingPending]"
    by (simp add: taken_seat_store_def taken_seat_payment_def empty_store_def)
  then show ?thesis
    unfolding res_def .
qed

subsection \<open>Check-in\<close>

lemma today_open_iff:
  "list_ex (\<lambda>record. att_shift record = shift \<and> check_in_time record \<noteq> None
                      \<and> check_out_time record = None) (fetch_todayAttendance st uid today)
   = open_row_exists st uid shift today"
  by (auto simp: fetch_todayAttendance_def open_row_exists_def list_ex_iff)

lemma today_closed_iff:
  "list_ex (\<lambda>record. att_shift record = shift \<and> check_in_time record \<noteq> None
                      \<and> check_out_time record \<noteq> None) (fetch_todayAttendance st uid today)
   = closed_row_exists st uid shift today"
  by (auto simp: fetch_todayAttendance_def closed_row_exists_def list_ex_iff)

lemma no_present_row:
  assumes "present_rows_checked_in st"
      and "\<not> open_row_exists st uid shift today" "\<not> closed_row_exists st uid shift today"
  shows "\<not> list_ex (\<lambda>x. att_user_id x = uid \<and> att_shift x = shift \<and> att_date x = today
                         \<and> att_status x = Present) (attendance_rows st)"
  using assms
  unfolding present_rows_checked_in_def open_row_exists_def closed_row_exists_def
    list_ex_iff list_all_iff
  by (metis option.exhaust)

text \<open>Every row of status \<^verbatim>\<open>present\<close> has a check-in time: so it is in the empty store,
  and the two writers of the attendance screen keep it so.\<close>

lemma present_rows_checked_in_kept:
  "present_rows_checked_in empty_store
   \<and> (present_rows_checked_in st \<longrightarrow>
        present_rows_checked_in (snd (handleCheckIn rows inShift st user adm shift now today))
        \<and> present_rows_checked_in (snd (handleCheckOut inShift st user aid shift now)))"
  by (auto simp: present_rows_checked_in_def empty_store_def handleCheckIn_def handleCheckOut_def
        insert_attendance_def update_check_out_def Let_def list_all_iff
        split: option.splits)

text \<open>C5: outside the shift's window the check-in is refused as invalid time; inside it,
  an open row of the user for the shift today refuses it as already checked in; without
  an open row, a closed one refuses it as shift completed; the three refusals leave the
  store as it was. Otherwise, for one of the four shifts and a store whose present rows
  all carry a check-in time, one row is inserted, with \<^verbatim>\<open>check_in_time\<close> the current
  time, no check-out time and status \<^verbatim>\<open>present\<close>.\<close>

theorem checkIn_cases:
  "(\<not> inShift shift \<longrightarrow> checkIn inShift st uid a shift now today = (InvalidTime, st))
   \<and> (inShift shift \<and> open_row_exists st uid shift today
        \<longrightarrow> checkIn inShift st uid a shift now today = (AlreadyCheckedIn, st))
   \<and> (inShift shift \<and> \<not> open_row_exists st uid shift today
        \<and> closed_row_exists st uid shift today
        \<longrightarrow> checkIn inShift st uid a shift now today = (ShiftCompleted, st))
   \<and> (inShift shift \<and> \<not> open_row_exists st uid shift today
        \<and> \<not> closed_row_exists st uid shift today
        \<and> shift_check shift \<and> present_rows_checked_in st
        \<longrightarrow> checkIn inShift st uid a shift now today =
              (AttendanceSuccess,
               st\<lparr>attendance_rows := attendance_rows st @
                    [\<lparr>att_id = gen_random_uuid (map att_id (attendance_rows st)),
                      att_user_id = uid, att_shift = shift, check_in_time = Some now,
                      check_out_time = None, att_date = today, att_status = Present,
                      reason = None\<rparr>]\<rparr>))"
  using no_present_row[of st uid shift today]
  unfolding checkIn_def handleCheckIn_def today_open_iff today_closed_iff
  by (simp add: insert_attendance_def Let_def)

theorem checkIn_cases_witness:
  "checkIn (\<lambda>s. s = ''evening'') attendance_store 7 admission_X ''morning'' 1830 ''2025-01-10''
     = (InvalidTime, attendance_store)
   \<and> checkIn (\<lambda>s. s = ''evening'') attendance_store 7 admission_X ''evening'' 1830 ''2025-01-10''
     = (AlreadyCheckedIn, attendance_store)
   \<and> checkIn (\<lambda>s. s = ''noon'') attendance_store 7 admission_X ''noon'' 1530 ''2025-01-10''
     = (ShiftCompleted, attendance_store)
   \<and> checkIn (\<lambda>s. s = ''night'') attendance_store 7 admission_X ''night'' 2230 ''2025-01-10''
     = (AttendanceSuccess,
        attendance_store\<lparr>attendance_rows := attendance_rows attendance_store @
           [\<lparr>att_id = 3, att_user_id = 7, att_shift = ''night'', check_in_time = Some 2230,
             check_out_time = None, att_date = ''2025-01-10'', att_status = Present,
             reason = None\<rparr>]\<rparr>)"
proof (intro conjI)
  show "checkIn (\<lambda>s. s = ''evening'') attendance_store 7 admission_X ''morning'' 1830
          ''2025-01-10'' = (InvalidTime, attendance_store)"
    using checkIn_cases[of "\<lambda>s. s = ''evening''" "''morning''" attendance_store 7 admission_X
            1830 "''2025-01-10''"]
    by simp
next
  have "open_row_exists attendance_store 7 ''evening'' ''2025-01-10''"
    by (simp add: open_row_exists_def attendance_store_def empty_store_def)
  then show "checkIn (\<lambda>s. s = ''evening'') attendance_store 7 admission_X ''evening'' 1830
          ''2025-01-10'' = (AlreadyCheckedIn, attendance_store)"
    using checkIn_cases[of "\<lambda>s. s = ''evening''" "''evening''" attendance_store 7 admission_X
            1830 "''2025-01-10''"]
    by simp
next
  have "\<not> open_row_exists attendance_store 7 ''noon'' ''2025-01-10''"
    and "closed_row_exists attendance_store 7 ''noon'' ''2025-01-10''"
    by (simp_all add: open_row_exists_def closed_row_exists_def attendance_store_def
          empty_store_def)
  then show "checkIn (\<lambda>s. s = ''noon'') attendance_store 7 admission_X ''noon'' 1530
          ''2025-01-10'' = (ShiftCompleted, attendance_store)"
    using checkIn_cases[of "\<lambda>s. s = ''noon''" "''noon''" attendance_store 7 admission_X
            1530 "''2025-01-10''"]
    by simp
next
  have "\<not> open_row_exists attendance_store 7 ''night'' ''2025-01-10''"
    and "\<not> closed_row_exists attendance_store 7 ''night'' ''2025-01-10''"
    and "shift_check ''night''" and "present_rows_checked_in attendance_store"
    and "gen_random_uuid (map att_id (attendance_rows attendance_store)) = 3"
    by (simp_all add: open_row_exists_def closed_row_exists_def attendance_store_def
          empty_store_def shift_check_def present_rows_checked_in_def gen_random_uuid_def)
  then show "checkIn (\<lambda>s. s = ''night'') attendance_store 7 admission_X ''night'' 2230
          ''2025-01-10'' =
       (AttendanceSuccess,
        attendance_store\<lparr>attendance_rows := attendance_rows attendance_store @
           [\<lparr>att_id = 3, att_user_id = 7, att_shift = ''night'', check_in_time = Some 2230,
             check_out_time = None, att_date = ''2025-01-10'', att_status = Present,
             reason = None\<rparr>]\<rparr>)"
    using checkIn_cases[of "\<lambda>s. s = ''night''" "''night''" attendance_store 7 admission_X
            2230 "''2025-01-10''"]
    by simp
qed

subsection \<open>Requesting a seat\<close>

lemma user_booking_found_iff:
  "(List.find (\<lambda>booking. sb_shift booking = shift)
      (userBookings (fetchData_booking st uid today)) = None)
   = (\<not> holds_booked_row st uid shift today)"
  by (auto simp: fetchData_booking_def Let_def holds_booked_row_def list_ex_iff find_None_iff)

lemma pending_payment_seen_iff:
  "list_ex (\<lambda>payment. booking_id payment \<noteq> None)
      (pendingCashPayments (fetchData_booking st uid today))
   = has_pending_booking_payment st uid"
  by (auto simp: fetchData_booking_def Let_def has_pending_booking_payment_def list_ex_iff)

lemma direct_booking_refused:
  assumes "has_pending_booking_payment st uid" "seat \<noteq> []" "shift \<noteq> []"
  shows "handleDirectBooking (fetchData_booking st uid today) st (Some uid) seat shift today
           = (PendingPaymentRequest, st)"
  using assms unfolding handleDirectBooking_def pending_payment_seen_iff by simp

lemma direct_booking_submitted:
  assumes "\<not> has_pending_booking_payment st uid" "seat \<noteq> []" "shift_check shift"
  shows "handleDirectBooking (fetchData_booking st uid today) st (Some uid) seat shift today
           = (BookingSubmitted,
              st\<lparr>seat_bookings := seat_bookings st @
                    [\<lparr>sb_id = gen_random_uuid (map sb_id (seat_bookings st)), sb_user_id = uid,
                      sb_shift = shift, seat_number = seat, booking_status = BookingPending,
                      booking_date = today\<rparr>],
                 cash_payments := cash_payments st @
                    [\<lparr>cp_id = gen_random_uuid (map cp_id (cash_payments st)), cp_user_id = uid,
                      booking_id = Some (gen_random_uuid (map sb_id (seat_bookings st))),
                      admission_id = None, amount = 50, status = CashPending,
                      approved_by = None, approved_at = None\<rparr>]\<rparr>)"
proof -
  have "shift \<noteq> []" using assms(3) by (auto simp: shift_check_def)
  then show ?thesis
    using assms unfolding handleDirectBooking_def pending_payment_seen_iff
    by (simp add: insert_seat_booking_def insert_cash_payment_def Let_def
          violates_unique_booked_def)
qed

text \<open>C2, as the specification states it, fails: user 11 holds a pending row for the
  morning shift of the day (the approval of its payment has failed on a taken seat), asks
  for another seat of that shift, and the request is submitted: a third row is
  inserted.\<close>

theorem requestBooking_with_pending_row:
  "holds_pending_row stuck_request_store 11 ''morning'' ''2025-01-10''
   \<and> fst (requestBooking stuck_request_store 11 ''morning'' ''A13'' ''2025-01-10'')
       = BookingSubmitted
   \<and> map seat_number (seat_bookings
        (snd (requestBooking stuck_request_store 11 ''morning'' ''A13'' ''2025-01-10'')))
       = [''A12'', ''A12'', ''A13'']"
  by (simp add: holds_pending_row_def stuck_request_store_def taken_seat_store_def
        taken_seat_payment_def empty_store_def requestBooking_def handleSeatBooking_def
        handleDirectBooking_def fetchData_booking_def insert_seat_booking_def
        insert_cash_payment_def shift_check_def violates_unique_booked_def
        gen_random_uuid_def Let_def)

text \<open>C2, amended: with a seat and a shift chosen, the request is refused as already
  booked when the user holds a row with status \<^verbatim>\<open>booked\<close> for the shift today;
  otherwise it is refused for a pending payment when the user has a pending cash payment
  linked to a booking; both refusals insert nothing. Otherwise, for one of the four
  shifts, it inserts a row with status \<^verbatim>\<open>pending\<close> for today and a pending cash
  payment of 50 linked to that row.\<close>

theorem requestBooking_cases:
  "(holds_booked_row st uid shift today \<and> seat \<noteq> [] \<and> shift \<noteq> []
      \<longrightarrow> (\<exists>s. fst (requestBooking st uid shift seat today) = AlreadyBooked s)
          \<and> snd (requestBooking st uid shift seat today) = st)
   \<and> (\<not> holds_booked_row st uid shift today \<and> has_pending_booking_payment st uid
        \<and> seat \<noteq> [] \<and> shift \<noteq> []
      \<longrightarrow> requestBooking st uid shift seat today = (PendingPaymentRequest, st))
   \<and> (\<not> holds_booked_row st uid shift today \<and> \<not> has_pending_booking_payment st uid
        \<and> seat \<noteq> [] \<and> shift_check shift
      \<longrightarrow> requestBooking st uid shift seat today =
            (BookingSubmitted,
              st\<lparr>seat_bookings := seat_bookings st @
                    [\<lparr>sb_id = gen_random_uuid (map sb_id (seat_bookings st)), sb_user_id = uid,
                      sb_shift = shift, seat_number = seat, booking_status = BookingPending,
                      booking_date = today\<rparr>],
                 cash_payments := cash_payments st @
                    [\<lparr>cp_id = gen_random_uuid (map cp_id (cash_payments st)), cp_user_id = uid,
                      booking_id = Some (gen_random_uuid (map sb_id (seat_bookings st))),
                      admission_id = None, amount = 50, status = CashPending,
                      approved_by = None, approved_at = None\<rparr>]\<rparr>))"
proof (intro conjI impI)
  assume h: "holds_booked_row st uid shift today \<and> seat \<noteq> [] \<and> shift \<noteq> []"
  then obtain b where "List.find (\<lambda>booking. sb_shift booking = shift)
                          (userBookings (fetchData_booking st uid today)) = Some b"
    using user_booking_found_iff[of shift st uid today] by auto
  with h show "\<exists>s. fst (requestBooking st uid shift seat today) = AlreadyBooked s"
    and "snd (requestBooking st uid shift seat today) = st"
    by (simp_all add: requestBooking_def handleSeatBooking_def)
next
  assume h: "\<not> holds_booked_row st uid shift today \<and> has_pending_booking_payment st uid
        \<and> seat \<noteq> [] \<and> shift \<noteq> []"
  then show "requestBooking st uid shift seat today = (PendingPaymentRequest, st)"
    using user_booking_found_iff[of shift st uid today]
      direct_booking_refused[of st uid seat shift today]
    by (simp add: requestBooking_def handleSeatBooking_def)
next
  assume h: "\<not> holds_booked_row st uid shift today \<and> \<not> has_pending_booking_payment st uid
        \<and> seat \<noteq> [] \<and> shift_check shift"
  then have "shift \<noteq> []" by (auto simp: shift_check_def)
  with h show "requestBooking st uid shift seat today =
            (BookingSubmitted,
              st\<lparr>seat_bookings := seat_bookings st @
                    [\<lparr>sb_id = gen_random_uuid (map sb_id (seat_bookings st)), sb_user_id = uid,
                      sb_shift = shift, seat_number = seat, booking_status = BookingPending,
                      booking_date = today\<rparr>],
                 cash_payments := cash_payments st @
                    [\<lparr>cp_id = gen_random_uuid (map cp_id (cash_payments st)), cp_user_id = uid,
                      booking_id = Some (gen_random_uuid (map sb_id (seat_bookings st))),
                      admission_id = None, amount = 50, status = CashPending,
                      approved_by = None, approved_at = None\<rparr>]\<rparr>)"
    using user_booking_found_iff[of shift st uid today]
      direct_booking_submitted[of st uid seat shift today]
    by (simp add: requestBooking_def handleSeatBooking_def)
qed

theorem requestBooking_cases_witness:
  "(\<exists>s. fst (requestBooking taken_seat_store 10 ''morning'' ''A13'' ''2025-01-10'')
           = AlreadyBooked s)
   \<and> snd (requestBooking taken_seat_store 10 ''morning'' ''A13'' ''2025-01-10'')
       = taken_seat_store
   \<and> requestBooking taken_seat_store 11 ''morning'' ''A13'' ''2025-01-10''
       = (PendingPaymentRequest, taken_seat_store)
   \<and> fst (requestBooking taken_seat_store 12 ''morning'' ''A13'' ''2025-01-10'')
       = BookingSubmitted
   \<and> map booking_status (seat_bookings
        (snd (requestBooking taken_seat_store 12 ''morning'' ''A13'' ''2025-01-10'')))
       = [Booked, BookingPending, BookingPending]
   \<and> map status (cash_payments
        (snd (requestBooking taken_seat_store 12 ''morning'' ''A13'' ''2025-01-10'')))
       = [CashPending, CashPending]"
proof -
  have b10: "holds_booked_row taken_seat_store 10 ''morning'' ''2025-01-10''"
    and b11: "\<not> holds_booked_row taken_seat_store 11 ''morning'' ''2025-01-10''"
    and b12: "\<not> holds_booked_row taken_seat_store 12 ''morning'' ''2025-01-10''"
    and p11: "has_pending_booking_payment taken_seat_store 11"
    and p12: "\<not> has_pending_booking_payment taken_seat_store 12"
    and sc: "shift_check ''morning''"
    by (simp_all add: holds_booked_row_def has_pending_booking_payment_def taken_seat_store_def
          taken_seat_payment_def empty_store_def shift_check_def)
  have one: "(\<exists>s. fst (requestBooking taken_seat_store 10 ''morning'' ''A13'' ''2025-01-10'')
                     = AlreadyBooked s)
             \<and> snd (requestBooking taken_seat_store 10 ''morning'' ''A13'' ''2025-01-10'')
                 = taken_seat_store"
    using requestBooking_cases[of taken_seat_store 10 "''morning''" "''2025-01-10''" "''A13''"] b10
    by simp
  have two: "requestBooking taken_seat_store 11 ''morning'' ''A13'' ''2025-01-10''
               = (PendingPaymentRequest, taken_seat_store)"
    using requestBooking_cases[of taken_seat_store 11 "''morning''" "''2025-01-10''" "''A13''"]
      b11 p11
    by simp
  define res where "res = requestBooking taken_seat_store 12 ''morning'' ''A13'' ''2025-01-10''"
  have "res = (BookingSubmitted,
              taken_seat_store\<lparr>seat_bookings := seat_bookings taken_seat_store @
                    [\<lparr>sb_id = gen_random_uuid (map sb_id (seat_bookings taken_seat_store)),
                      sb_user_id = 12, sb_shift = ''morning'', seat_number = ''A13'',
                      booking_status = BookingPending, booking_date = ''2025-01-10''\<rparr>],
                 cash_payments := cash_payments taken_seat_store @
                    [\<lparr>cp_id = gen_random_uuid (map cp_id (cash_payments taken_seat_store)),
                      cp_user_id = 12,
                      booking_id = Some (gen_random_uuid (map sb_id (seat_bookings taken_seat_store))),
                      admission_id = None, amount = 50, status = CashPending,
                      approved_by = None, approved_at = None\<rparr>]\<rparr>)"
    unfolding res_def
    using requestBooking_cases[of taken_seat_store 12 "''morning''" "''2025-01-10''" "''A13''"]
      b12 p12 sc
    by simp
  then have "fst res = BookingSubmitted
     \<and> map booking_status (seat_bookings (snd res)) = [Booked, BookingPending, BookingPending]
     \<and> map status (cash_payments (snd res)) = [CashPending, CashPending]"
    by (simp add: taken_seat_store_def taken_seat_payment_def empty_store_def)
  then show ?thesis
    using one two unfolding res_def by blast
qed

subsection \<open>Submitting a cash payment\<close>

lemma maybeSingle_one: "length xs = 1 \<Longrightarrow> \<exists>x. maybeSingle xs = Some x"
  by (cases xs) (auto simp: maybeSingle_def split: list.splits)

lemma submit_refused:
  assumes "length (pending_for_admission st uid (adm_id a)) = 1"
  shows "is_duplicate_request (fst (submitCashPayment st uid a))
         \<and> snd (submitCashPayment st uid a) = st"
proof -
  obtain p where "select_pending_cash_payment st uid (adm_id a) = Some p"
    using maybeSingle_one[OF assms]
    by (auto simp: select_pending_cash_payment_def pending_for_admission_def)
  then show ?thesis
    by (simp add: submitCashPayment_def confirmCashPayment_def fetchAdmission_def)
qed

lemma submit_first:
  assumes "pending_for_admission st uid (adm_id a) = []" "total_amount a > 0"
  shows "fst (submitCashPayment st uid a) = CashPaymentSubmitted
         \<and> cash_payments (snd (submitCashPayment st uid a)) = cash_payments st @
              [\<lparr>cp_id = gen_random_uuid (map cp_id (cash_payments st)), cp_user_id = uid,
                booking_id = None, admission_id = Some (adm_id a), amount = total_amount a,
                status = CashPending, approved_by = None, approved_at = None\<rparr>]"
proof -
  have "select_pending_cash_payment st uid (adm_id a) = None"
    using assms(1)
    by (simp add: select_pending_cash_payment_def pending_for_admission_def maybeSingle_def)
  then show ?thesis
    using assms(2)
    by (simp add: submitCashPayment_def confirmCashPayment_def fetchAdmission_def
          insert_cash_payment_def update_admission_pending_def Let_def)
qed

lemma maybeSingle_None_short: "maybeSingle xs = None \<Longrightarrow> length xs \<le> 1 \<Longrightarrow> xs = []"
  by (cases xs) (auto simp: maybeSingle_def split: list.splits)

text \<open>Submissions that run one after the other never give a user a second pending cash
  payment for an admission: the check finds the pending payment whenever there is just
  one.\<close>

lemma submit_keeps_single_pending:
  assumes "length (pending_for_admission st u x) \<le> 1"
  shows "length (pending_for_admission (snd (submitCashPayment st uid a)) u x) \<le> 1"
proof (cases "select_pending_cash_payment st uid (adm_id a)")
  case (Some p)
  then show ?thesis
    using assms
    by (simp add: submitCashPayment_def confirmCashPayment_def fetchAdmission_def)
next
  case None
  show ?thesis
  proof (cases "total_amount a > 0")
    case False
    then show ?thesis
      using assms None
      by (simp add: submitCashPayment_def confirmCashPayment_def fetchAdmission_def
            insert_cash_payment_def Let_def)
  next
    case True
    have rows: "cash_payments (snd (submitCashPayment st uid a)) = cash_payments st @
              [\<lparr>cp_id = gen_random_uuid (map cp_id (cash_payments st)), cp_user_id = uid,
                booking_id = None, admission_id = Some (adm_id a), amount = total_amount a,
                status = CashPending, approved_by = None, approved_at = None\<rparr>]"
      using None True
      by (simp add: submitCashPayment_def confirmCashPayment_def fetchAdmission_def
            insert_cash_payment_def update_admission_pending_def Let_def)
    show ?thesis
    proof (cases "u = uid \<and> x = adm_id a")
      case True
      then have "pending_for_admission st u x = []"
        using None assms maybeSingle_None_short
        unfolding select_pending_cash_payment_def pending_for_admission_def by blast
      then show ?thesis
        using True unfolding pending_for_admission_def rows by simp
    next
      case False
      then show ?thesis
        using assms unfolding pending_for_admission_def rows by auto
    qed
  qed
qed

text \<open>C8: the code refuses a submission as long as the user has exactly one pending
  payment for the admission (\<open>submit_refused\<close>), and not beyond. Two sessions of user 7
  run the check of \<^verbatim>\<open>confirmCashPayment\<close> on a store without a payment, both find none,
  and both insert: admission 3 has two pending payments. The query of the check then
  answers no row, and the next submission for admission 3 is not refused: it is
  accepted and leaves a third pending payment.\<close>

theorem third_pending_payment_accepted:
  "select_pending_cash_payment admission_X_store 7 3 = None
   \<and> insert_cash_payment admission_X_store 7 None (Some 3) 549 CashPending
       = Inr (pending_A, admission_X_store\<lparr>cash_payments := [pending_A]\<rparr>)
   \<and> insert_cash_payment (admission_X_store\<lparr>cash_payments := [pending_A]\<rparr>) 7 None (Some 3)
        549 CashPending
       = Inr (pending_B, double_pending_store)
   \<and> length (pending_for_admission double_pending_store 7 3) = 2
   \<and> fst (submitCashPayment double_pending_store 7 admission_X) = CashPaymentSubmitted
   \<and> \<not> is_duplicate_request (fst (submitCashPayment double_pending_store 7 admission_X))
   \<and> length (pending_for_admission (snd (submitCashPayment double_pending_store 7 admission_X))
               7 3) = 3"
  by (simp add: select_pending_cash_payment_def maybeSingle_def admission_X_store_def
        admission_X_def empty_store_def insert_cash_payment_def gen_random_uuid_def Let_def
        pending_A_def pending_B_def double_pending_store_def pending_for_admission_def
        submitCashPayment_def confirmCashPayment_def fetchAdmission_def
        update_admission_pending_def)

subsection \<open>One booked row per seat, shift and date\<close>

lemma fold_max_ge: "(a::nat) \<le> fold max xs a \<and> (\<forall>x\<in>set xs. x \<le> fold max xs a)"
proof (induction xs arbitrary: a)
  case Nil
  then show ?case by simp
next
  case (Cons y ys)
  have "max y a \<le> fold max ys (max y a)" and "\<forall>x\<in>set ys. x \<le> fold max ys (max y a)"
    using Cons.IH[of "max y a"] by simp_all
  then show ?case by auto
qed

lemma gen_random_uuid_fresh: "gen_random_uuid used \<notin> set used"
proof
  assume "gen_random_uuid used \<in> set used"
  then have "gen_random_uuid used \<le> fold max used 0"
    using fold_max_ge[of 0 used] by blast
  then show False by (simp add: gen_random_uuid_def)
qed

lemma seat_table_ok_insert:
  assumes "seat_table_ok (seat_bookings st)"
      and "insert_seat_booking st uid shift seat bstatus d = Inr (r, st')"
  shows "seat_table_ok (seat_bookings st')"
proof -
  let ?r = "\<lparr>sb_id = gen_random_uuid (map sb_id (seat_bookings st)), sb_user_id = uid,
             sb_shift = shift, seat_number = seat, booking_status = bstatus, booking_date = d\<rparr>"
  have ok: "\<not> violates_unique_booked (seat_bookings st) ?r"
    and st': "seat_bookings st' = seat_bookings st @ [?r]"
    using assms(2) by (auto simp: insert_seat_booking_def Let_def split: if_splits)
  have fresh: "sb_id ?r \<notin> sb_id ` set (seat_bookings st)"
    using gen_random_uuid_fresh[of "map sb_id (seat_bookings st)"] by simp
  have no_clash: "booking_status ?r = Booked \<Longrightarrow> x \<in> set (seat_bookings st) \<Longrightarrow>
                  booking_status x = Booked \<Longrightarrow> \<not> same_seat x ?r" for x
    using ok unfolding violates_unique_booked_def list_ex_iff by blast
  show ?thesis
    unfolding seat_table_ok_def st'
  proof (intro conjI ballI impI)
    show "distinct (map sb_id (seat_bookings st @ [?r]))"
      using assms(1) fresh by (simp add: seat_table_ok_def)
  next
    fix x y
    assume x: "x \<in> set (seat_bookings st @ [?r])" and y: "y \<in> set (seat_bookings st @ [?r])"
      and b: "booking_status x = Booked \<and> booking_status y = Booked \<and> same_seat x y"
    consider "x = ?r" "y = ?r" | "x = ?r" "y \<in> set (seat_bookings st)"
      | "x \<in> set (seat_bookings st)" "y = ?r"
      | "x \<in> set (seat_bookings st)" "y \<in> set (seat_bookings st)"
      using x y by auto
    then show "sb_id x = sb_id y"
    proof cases
      case 1 then show ?thesis by simp
    next
      case 2
      then have "booking_status ?r = Booked" "booking_status y = Booked" "same_seat y ?r"
        using b by (auto simp: same_seat_def)
      then show ?thesis using no_clash[of y] 2 by blast
    next
      case 3
      then have "booking_status ?r = Booked" "booking_status x = Booked" "same_seat x ?r"
        using b by (auto simp: same_seat_def)
      then show ?thesis using no_clash[of x] 3 by blast
    next
      case 4 then show ?thesis using assms(1) b unfolding seat_table_ok_def by blast
    qed
  qed
qed

lemma seat_table_ok_update:
  assumes "seat_table_ok (seat_bookings st)"
      and "update_booking_status st bid bstatus = Inr st'"
  shows "seat_table_ok (seat_bookings st')"
proof -
  let ?upd = "\<lambda>r. if sb_id r = bid then r\<lparr>booking_status := bstatus\<rparr> else r"
  have st': "seat_bookings st' = map ?upd (seat_bookings st)"
    and ok: "\<not> list_ex (\<lambda>r. sb_id r = bid \<and> violates_unique_booked
                 (filter (\<lambda>r. sb_id r \<noteq> bid) (seat_bookings st)) (r\<lparr>booking_status := bstatus\<rparr>))
               (seat_bookings st)"
    using assms(2) by (auto simp: update_booking_status_def Let_def split: if_splits)
  have "sb_id \<circ> ?upd = sb_id"
    by (auto simp: fun_eq_iff)
  then have ids: "map sb_id (map ?upd (seat_bookings st)) = map sb_id (seat_bookings st)"
    by simp
  have no_clash: "bstatus = Booked \<Longrightarrow> r \<in> set (seat_bookings st) \<Longrightarrow> sb_id r = bid \<Longrightarrow>
        x \<in> set (seat_bookings st) \<Longrightarrow> sb_id x \<noteq> bid \<Longrightarrow> booking_status x = Booked \<Longrightarrow>
        \<not> same_seat x r" for r x
    using ok unfolding list_ex_iff violates_unique_booked_def
    by (auto simp: same_seat_def)
  have sym: "same_seat x y = same_seat y x" for x y
    by (auto simp: same_seat_def)
  have seat_upd: "same_seat (?upd x) (?upd y) = same_seat x y" for x y
    by (auto simp: same_seat_def)
  show ?thesis
    unfolding seat_table_ok_def st'
  proof (intro conjI ballI impI)
    show "distinct (map sb_id (map ?upd (seat_bookings st)))"
      using assms(1) unfolding ids seat_table_ok_def by simp
  next
    fix x' y'
    assume "x' \<in> set (map ?upd (seat_bookings st))" "y' \<in> set (map ?upd (seat_bookings st))"
      and b: "booking_status x' = Booked \<and> booking_status y' = Booked \<and> same_seat x' y'"
    then obtain x y where x: "x \<in> set (seat_bookings st)" "x' = ?upd x"
      and y: "y \<in> set (seat_bookings st)" "y' = ?upd y"
      by auto
    have same: "same_seat x y" using b seat_upd[of x y] unfolding x(2) y(2) by blast
    show "sb_id x' = sb_id y'"
    proof (cases "sb_id x = bid")
      case xb: True
      show ?thesis
      proof (cases "sb_id y = bid")
        case True then show ?thesis using xb x y by simp
      next
        case False
        then have "booking_status y = Booked" using b y by simp
        moreover have "bstatus = Booked" using b x xb by simp
        moreover have "same_seat y x" using same sym[of x y] by simp
        ultimately have False using no_clash[of x y] x(1) y(1) xb False by blast
        then show ?thesis ..
      qed
    next
      case xnb: False
      then have bx: "booking_status x = Booked" using b x by simp
      show ?thesis
      proof (cases "sb_id y = bid")
        case True
        then have "bstatus = Booked" using b y by simp
        then have False using no_clash[of y x] x(1) y(1) xnb True same bx by blast
        then show ?thesis ..
      next
        case False
        then have "booking_status y = Booked" using b y by simp
        then have "sb_id x = sb_id y"
          using assms(1) bx same x(1) y(1) unfolding seat_table_ok_def by blast
        then show ?thesis using x(2) y(2) xnb False by simp
      qed
    qed
  qed
qed

lemma seat_table_ok_delete:
  assumes "seat_table_ok (seat_bookings st)"
      and "delete_seat_booking st bid = Inr st'"
  shows "seat_table_ok (seat_bookings st')"
proof -
  have "seat_bookings st' = filter (\<lambda>r. sb_id r \<noteq> bid) (seat_bookings st)"
    using assms(2) by (auto simp: delete_seat_booking_def)
  then show ?thesis
    using assms(1) unfolding seat_table_ok_def by (auto simp: distinct_map_filter)
qed

lemma seat_table_ok_exec:
  assumes "seat_table_ok (seat_bookings st)" "exec s st = Inr st'"
  shows "seat_table_ok (seat_bookings st')"
proof (cases s)
  case (UpdateCashPayment pid cs ad t)
  then show ?thesis using assms by (auto simp: update_cash_payment_def)
next
  case (UpdateBookingStatus bid bs)
  then show ?thesis using assms seat_table_ok_update by auto
next
  case (InsertSeatBooking uid shift seat bs d)
  then show ?thesis using assms seat_table_ok_insert
    by (auto split: sum.splits)
next
  case (DeleteSeatBooking bid)
  then show ?thesis using assms seat_table_ok_delete by auto
next
  case (InsertAdminLog l)
  then show ?thesis using assms by (auto simp: insert_admin_log_def)
next
  case (InsertNotification n)
  then show ?thesis using assms by (auto simp: insert_notification_def)
qed

lemma seat_table_ok_exec_all:
  "seat_table_ok (seat_bookings st) \<Longrightarrow> seat_table_ok (seat_bookings (exec_all ss st))"
proof (induction ss arbitrary: st)
  case Nil
  then show ?case by simp
next
  case (Cons s ss)
  show ?case
  proof (cases "exec s st")
    case (Inl e)
    then have "exec_all (s # ss) st = exec_all ss st" by simp
    then show ?thesis using Cons.IH[OF Cons.prems] by simp
  next
    case (Inr st')
    then have "exec_all (s # ss) st = exec_all ss st'" by simp
    moreover have "seat_table_ok (seat_bookings st')"
      using seat_table_ok_exec[OF Cons.prems Inr] .
    ultimately show ?thesis using Cons.IH[of st'] by simp
  qed
qed

lemma list_le_one_cases:
  obtains "xs = []" | x where "xs = [x]" | x y zs where "xs = x # y # zs"
  by (cases xs; cases "tl xs") auto

lemma seat_table_ok_count:
  assumes "seat_table_ok (seat_bookings st)"
  shows "booked_count st shift seat d \<le> 1"
proof -
  let ?P = "\<lambda>r. booking_status r = Booked \<and> sb_shift r = shift \<and> seat_number r = seat
                 \<and> booking_date r = d"
  let ?xs = "filter ?P (seat_bookings st)"
  have d: "distinct (seat_bookings st)"
    using assms unfolding seat_table_ok_def by (simp add: distinct_map)
  have inj: "inj_on sb_id (set (seat_bookings st))"
    using assms unfolding seat_table_ok_def by (simp add: distinct_map)
  have eq: "x = y" if "x \<in> set ?xs" "y \<in> set ?xs" for x y
  proof -
    have "sb_id x = sb_id y"
      using that assms unfolding seat_table_ok_def same_seat_def by auto
    then show ?thesis using that inj by (auto dest: inj_onD)
  qed
  have dx: "distinct ?xs" using d by simp
  have "length ?xs \<le> 1"
  proof (cases ?xs rule: list_le_one_cases)
    case (3 x y zs)
    then have "x \<in> set ?xs" "y \<in> set ?xs" by (metis list.set_intros)+
    then have "x = y" by (rule eq)
    moreover have "x \<noteq> y" using dx unfolding 3 by simp
    ultimately show ?thesis by simp
  qed simp_all
  then show ?thesis
    unfolding booked_count_def .
qed

lemma booked_once_any_statements:
  "booked_count (exec_all ss empty_store) shift seat d \<le> 1"
proof -
  have "seat_table_ok (seat_bookings empty_store)"
    by (simp add: seat_table_ok_def empty_store_def)
  then have "seat_table_ok (seat_bookings (exec_all ss empty_store))"
    by (rule seat_table_ok_exec_all)
  then show ?thesis
    by (rule seat_table_ok_count)
qed

lemma contested_sym: "contested b b' k st = contested b' b k st"
  unfolding contested_def by (auto simp: list_all_iff)

lemma harmless_exec:
  "harmless s \<Longrightarrow> \<exists>st'. exec s st = Inr st' \<and> seat_bookings st' = seat_bookings st"
  by (cases s) (simp_all add: update_cash_payment_def insert_admin_log_def
                  insert_notification_def)

lemma same_seat_trans: "same_seat x k \<Longrightarrow> same_seat y k \<Longrightarrow> same_seat x y"
  by (simp add: same_seat_def)

lemma row_by_id:
  assumes "distinct (map sb_id rows)" "x \<in> set rows" "y \<in> set rows" "sb_id x = sb_id y"
  shows "x = y"
  using assms by (meson distinct_map inj_onD)

lemma update_goes_through:
  assumes c: "contested b b' k st" and nb: "\<not> is_booked st b'"
  shows "update_booking_status st b Booked =
           Inr (st\<lparr>seat_bookings :=
                  map (\<lambda>r. if sb_id r = b then r\<lparr>booking_status := Booked\<rparr> else r)
                    (seat_bookings st)\<rparr>)"
proof -
  have "\<not> violates_unique_booked (filter (\<lambda>r. sb_id r \<noteq> b) (seat_bookings st))
            (r\<lparr>booking_status := Booked\<rparr>)"
    if r: "r \<in> set (seat_bookings st)" "sb_id r = b" for r
  proof
    assume "violates_unique_booked (filter (\<lambda>r. sb_id r \<noteq> b) (seat_bookings st))
              (r\<lparr>booking_status := Booked\<rparr>)"
    then obtain x where x: "x \<in> set (seat_bookings st)" "sb_id x \<noteq> b"
      "booking_status x = Booked" "same_seat x r"
      unfolding violates_unique_booked_def list_ex_iff by (auto simp: same_seat_def)
    obtain r0 where r0: "r0 \<in> set (seat_bookings st)" "sb_id r0 = b" "same_seat r0 k"
      using c unfolding contested_def list_ex_iff by blast
    have "r0 = r" using row_by_id[of "seat_bookings st" r0 r] c r r0
      unfolding contested_def by simp
    then have xk: "same_seat x k" using x(4) r0(3) by (simp add: same_seat_def)
    have "sb_id x \<noteq> b'" using nb x unfolding is_booked_def list_ex_iff by blast
    then have "booking_status x \<noteq> Booked"
      using c x(1,2) xk unfolding contested_def list_all_iff by blast
    then show False using x(3) by simp
  qed
  then show ?thesis
    unfolding update_booking_status_def Let_def list_ex_iff by auto
qed

lemma update_refused_by_rival:
  assumes c: "contested b b' k st" and ib: "is_booked st b'"
  shows "update_booking_status st b Booked = Inl UniqueViolation"
proof -
  obtain r where r: "r \<in> set (seat_bookings st)" "sb_id r = b" "same_seat r k"
    using c unfolding contested_def list_ex_iff by blast
  obtain x where x: "x \<in> set (seat_bookings st)" "sb_id x = b'" "booking_status x = Booked"
    using ib unfolding is_booked_def list_ex_iff by blast
  obtain x0 where x0: "x0 \<in> set (seat_bookings st)" "sb_id x0 = b'" "same_seat x0 k"
    using c unfolding contested_def list_ex_iff by blast
  have "x0 = x" using row_by_id[of "seat_bookings st" x0 x] c x x0
    unfolding contested_def by simp
  then have "same_seat x r" using x0(3) r(3) by (simp add: same_seat_def)
  moreover have "sb_id x \<noteq> b" using c x(2) unfolding contested_def by simp
  ultimately show ?thesis
    using update_booking_status_refused[of r st b x] r x by simp
qed


lemma same_table:
  assumes "seat_bookings st' = seat_bookings st"
  shows "contested b b' k st' = contested b b' k st" and "is_booked st' x = is_booked st x"
  using assms by (simp_all add: contested_def is_booked_def)

lemma after_update:
  assumes c: "contested b b' k st"
  defines "st' \<equiv> st\<lparr>seat_bookings :=
                      map (\<lambda>r. if sb_id r = b then r\<lparr>booking_status := Booked\<rparr> else r)
                        (seat_bookings st)\<rparr>"
  shows "contested b b' k st'" and "is_booked st' b" and "is_booked st' b' = is_booked st b'"
proof -
  let ?upd = "\<lambda>r. if sb_id r = b then r\<lparr>booking_status := Booked\<rparr> else r"
  have rows: "seat_bookings st' = map ?upd (seat_bookings st)"
    by (simp add: st'_def)
  have "sb_id \<circ> ?upd = sb_id"
    by (auto simp: fun_eq_iff)
  then have ids: "map sb_id (map ?upd (seat_bookings st)) = map sb_id (seat_bookings st)"
    by simp
  have ne: "b \<noteq> b'" using c by (simp add: contested_def)
  obtain r where r: "r \<in> set (seat_bookings st)" "sb_id r = b" "same_seat r k"
    using c unfolding contested_def list_ex_iff by blast
  obtain x where x: "x \<in> set (seat_bookings st)" "sb_id x = b'" "same_seat x k"
    using c unfolding contested_def list_ex_iff by blast
  have r': "?upd r \<in> set (seat_bookings st')" "sb_id (?upd r) = b" "same_seat (?upd r) k"
    "booking_status (?upd r) = Booked"
    using r unfolding rows by (auto simp: same_seat_def)
  have x': "?upd x \<in> set (seat_bookings st')" "sb_id (?upd x) = b'" "same_seat (?upd x) k"
    using x ne unfolding rows by (auto simp: same_seat_def)
  have others: "sb_id y \<noteq> b \<and> sb_id y \<noteq> b' \<and> same_seat y k \<longrightarrow> booking_status y \<noteq> Booked"
    if "y \<in> set (seat_bookings st')" for y
  proof -
    have "y \<in> ?upd ` set (seat_bookings st)"
      using that unfolding rows by simp
    then obtain z where z: "z \<in> set (seat_bookings st)" "y = ?upd z"
      by blast
    show ?thesis
    proof (cases "sb_id z = b")
      case True then show ?thesis using z by simp
    next
      case False
      then have "y = z" using z by simp
      then show ?thesis using c z(1) unfolding contested_def list_all_iff by blast
    qed
  qed
  show "contested b b' k st'"
    unfolding contested_def list_ex_iff list_all_iff
  proof (intro conjI)
    show "b \<noteq> b'" by (rule ne)
    show "distinct (map sb_id (seat_bookings st'))"
      using c unfolding rows ids contested_def by simp
    show "\<exists>r\<in>set (seat_bookings st'). sb_id r = b \<and> same_seat r k"
      using r'(1,2,3) by blast
    show "\<exists>r\<in>set (seat_bookings st'). sb_id r = b' \<and> same_seat r k"
      using x' by blast
    show "\<forall>y\<in>set (seat_bookings st').
            sb_id y \<noteq> b \<and> sb_id y \<noteq> b' \<and> same_seat y k \<longrightarrow> booking_status y \<noteq> Booked"
      using others by blast
  qed
  show "is_booked st' b"
    unfolding is_booked_def list_ex_iff using r'(1,2,4) by blast
  show "is_booked st' b' = is_booked st b'"
  proof
    assume "is_booked st' b'"
    then obtain y where y: "y \<in> set (seat_bookings st')" "sb_id y = b'" "booking_status y = Booked"
      unfolding is_booked_def list_ex_iff by blast
    then have "y \<in> ?upd ` set (seat_bookings st)"
      unfolding rows by simp
    then obtain z where z: "z \<in> set (seat_bookings st)" "y = ?upd z"
      by blast
    have "sb_id z = b'" using y(2) z(2) by (simp split: if_splits)
    then have "y = z" using z(2) ne by simp
    then show "is_booked st b'"
      using y z(1) unfolding is_booked_def list_ex_iff by blast
  next
    assume "is_booked st b'"
    then obtain z where z: "z \<in> set (seat_bookings st)" "sb_id z = b'" "booking_status z = Booked"
      unfolding is_booked_def list_ex_iff by blast
    then have "?upd z = z" using ne by simp
    then have "z \<in> set (seat_bookings st')" unfolding rows using z(1) by force
    then show "is_booked st' b'"
      using z unfolding is_booked_def list_ex_iff by blast
  qed
qed


lemma waiting_head:
  assumes "waiting b (Running (s # rest))"
  shows "(harmless s \<and> waiting b (Running rest))
         \<or> (s = UpdateBookingStatus b Booked \<and> past (Running rest))"
proof -
  obtain pre post where t: "s # rest = pre @ UpdateBookingStatus b Booked # post"
    and h: "list_all harmless pre" "list_all harmless post"
    using assms unfolding waiting_def by auto
  show ?thesis
  proof (cases pre)
    case Nil
    then show ?thesis using t h by (auto simp: past_def)
  next
    case (Cons p pre')
    then have "s = p" "rest = pre' @ UpdateBookingStatus b Booked # post" "harmless p"
      "list_all harmless pre'"
      using t h by simp_all
    then show ?thesis using h(2) unfolding waiting_def by blast
  qed
qed

lemma past_head:
  assumes "past (Running (s # rest))"
  shows "harmless s \<and> past (Running rest)"
  using assms by (auto simp: past_def)

lemma step_keeps:
  assumes c: "contested b b' k st"
      and p: "phase_ok b b' t st" and p': "phase_ok b' b t' st"
      and s: "step_thread t st = (tn, stn)"
  shows "contested b b' k stn \<and> phase_ok b b' tn stn \<and> phase_ok b' b t' stn"
proof (cases t)
  case Thrown
  then show ?thesis using c p p' s by simp
next
  case (Running ss)
  show ?thesis
  proof (cases ss)
    case Nil
    then show ?thesis using Running c p p' s by simp
  next
    case (Cons x rest)
    have t: "t = Running (x # rest)" using Running Cons by simp
    show ?thesis
    proof (cases "harmless x")
      case True
      then obtain st' where e: "exec x st = Inr st'" "seat_bookings st' = seat_bookings st"
        using harmless_exec by blast
      then have n: "tn = Running rest" "stn = st'" using s t by simp_all
      have x_not: "x \<noteq> UpdateBookingStatus b Booked" using True by auto
      have "phase_ok b b' (Running rest) st"
        using p waiting_head[of b x rest] past_head[of x rest] x_not
        unfolding phase_ok_def t by auto
      then show ?thesis
        using c p' same_table[OF e(2)] unfolding n phase_ok_def by simp
    next
      case False
      then have w: "x = UpdateBookingStatus b Booked" "past (Running rest)" "\<not> is_booked st b"
        using p waiting_head[of b x rest] past_head[of x rest]
        unfolding phase_ok_def t by auto
      show ?thesis
      proof (cases "is_booked st b'")
        case True
        then have "exec x st = Inl UniqueViolation"
          using update_refused_by_rival[OF c] w(1) by simp
        then have "tn = Thrown" "stn = st" using s t by simp_all
        then show ?thesis using c p' w(3) True by (simp add: phase_ok_def)
      next
        case False
        let ?st' = "st\<lparr>seat_bookings :=
                        map (\<lambda>r. if sb_id r = b then r\<lparr>booking_status := Booked\<rparr> else r)
                          (seat_bookings st)\<rparr>"
        have "exec x st = Inr ?st'"
          using update_goes_through[OF c False] w(1) by simp
        then have n: "tn = Running rest" "stn = ?st'" using s t by simp_all
        have a: "contested b b' k ?st'" "is_booked ?st' b" "is_booked ?st' b' = is_booked st b'"
          using after_update[OF c] by simp_all
        have "waiting b' t'" using p' False w(3) unfolding phase_ok_def by auto
        then have "phase_ok b' b t' ?st'"
          using a(3) False unfolding phase_ok_def by simp
        moreover have "phase_ok b b' (Running rest) ?st'"
          using w(2) a(2,3) False unfolding phase_ok_def by simp
        ultimately show ?thesis using a(1) unfolding n by simp
      qed
    qed
  qed
qed

lemma schedule_keeps:
  assumes "contested b1 b2 k st" "phase_ok b1 b2 t1 st" "phase_ok b2 b1 t2 st"
      and "run_schedule sch (t1, t2, st) = (u1, u2, st')"
  shows "contested b1 b2 k st' \<and> phase_ok b1 b2 u1 st' \<and> phase_ok b2 b1 u2 st'"
  using assms
proof (induction sch arbitrary: t1 t2 st)
  case Nil
  then show ?case by simp
next
  case (Cons first sch)
  show ?case
  proof (cases first)
    case True
    obtain tn stn where st: "step_thread t1 st = (tn, stn)"
      by (cases "step_thread t1 st") auto
    then have run: "run_schedule sch (tn, t2, stn) = (u1, u2, st')"
      using Cons.prems(4) True by simp
    have "contested b1 b2 k stn \<and> phase_ok b1 b2 tn stn \<and> phase_ok b2 b1 t2 stn"
      using step_keeps[OF Cons.prems(1,2,3) st] .
    then show ?thesis using Cons.IH[OF _ _ _ run] by blast
  next
    case False
    obtain tn stn where st: "step_thread t2 st = (tn, stn)"
      by (cases "step_thread t2 st") auto
    then have run: "run_schedule sch (t1, tn, stn) = (u1, u2, st')"
      using Cons.prems(4) False by simp
    have "contested b2 b1 k st" using Cons.prems(1) contested_sym by blast
    then have "contested b2 b1 k stn \<and> phase_ok b2 b1 tn stn \<and> phase_ok b1 b2 t1 stn"
      using step_keeps[OF _ Cons.prems(3,2) st] by blast
    then have "contested b1 b2 k stn \<and> phase_ok b1 b2 t1 stn \<and> phase_ok b2 b1 tn stn"
      using contested_sym by blast
    then show ?thesis using Cons.IH[OF _ _ _ run] by blast
  qed
qed


lemma member_length: "x \<in> set xs \<Longrightarrow> length xs \<noteq> 0"
  by auto

lemma finished_phase:
  assumes "phase_ok b b' t st" "finished t"
  shows "(succeeded t \<and> is_booked st b \<and> \<not> is_booked st b')
         \<or> (\<not> succeeded t \<and> \<not> is_booked st b \<and> is_booked st b')"
proof (cases t)
  case Thrown
  then show ?thesis using assms by (auto simp: phase_ok_def waiting_def past_def)
next
  case (Running ss)
  then have "ss = []" using assms(2) by simp
  then show ?thesis using assms(1) Running by (auto simp: phase_ok_def waiting_def)
qed

lemma one_booked_row:
  assumes c: "contested b b' k st" and ib: "is_booked st b" and nb: "\<not> is_booked st b'"
  shows "booked_count st (sb_shift k) (seat_number k) (booking_date k) = 1"
proof -
  let ?P = "\<lambda>r. booking_status r = Booked \<and> sb_shift r = sb_shift k
                 \<and> seat_number r = seat_number k \<and> booking_date r = booking_date k"
  let ?xs = "filter ?P (seat_bookings st)"
  have d: "distinct (map sb_id (seat_bookings st))" using c by (simp add: contested_def)
  obtain r where r: "r \<in> set (seat_bookings st)" "sb_id r = b" "booking_status r = Booked"
    using ib unfolding is_booked_def list_ex_iff by blast
  obtain r0 where r0: "r0 \<in> set (seat_bookings st)" "sb_id r0 = b" "same_seat r0 k"
    using c unfolding contested_def list_ex_iff by blast
  have "r0 = r" using row_by_id[OF d r0(1) r(1)] r0(2) r(2) by simp
  then have rin: "r \<in> set ?xs" using r r0(3) by (simp add: same_seat_def)
  have only: "y = r" if "y \<in> set ?xs" for y
  proof -
    have y: "y \<in> set (seat_bookings st)" "booking_status y = Booked" "same_seat y k"
      using that by (simp_all add: same_seat_def)
    have "sb_id y \<noteq> b'" using nb y(1,2) unfolding is_booked_def list_ex_iff by blast
    then have "sb_id y = b"
      using c y unfolding contested_def list_all_iff by blast
    then show ?thesis using row_by_id[OF d y(1) r(1)] r(2) by simp
  qed
  have dx: "distinct ?xs" using d by (simp add: distinct_map)
  have "length ?xs = 1"
  proof (cases ?xs rule: list_le_one_cases)
    case 1
    then show ?thesis using rin by simp
  next
    case (2 x)
    then show ?thesis by simp
  next
    case (3 x y zs)
    then have "x \<in> set ?xs" "y \<in> set ?xs" by (metis list.set_intros)+
    then have "x = y" using only by blast
    moreover have "x \<noteq> y" using dx unfolding 3 by simp
    ultimately show ?thesis by simp
  qed
  then show ?thesis unfolding booked_count_def .
qed

lemma race_start:
  assumes d: "booking_ids_distinct st"
      and p: "booking_id p1 = Some b1" "booking_id p2 = Some b2" "b1 \<noteq> b2"
      and f: "find_booking st b1 = Some r1" "find_booking st b2 = Some r2"
      and k: "same_seat r1 r2"
      and free: "booked_count st (sb_shift r1) (seat_number r1) (booking_date r1) = 0"
  shows "contested b1 b2 r1 st"
    and "phase_ok b1 b2 (Running (approval_statements a1 p1 n1)) st"
    and "phase_ok b2 b1 (Running (approval_statements a2 p2 n2)) st"
proof -
  have r1: "r1 \<in> set (seat_bookings st)" "sb_id r1 = b1"
    using f(1) unfolding find_booking_def by (auto simp: find_Some_iff)
  have r2: "r2 \<in> set (seat_bookings st)" "sb_id r2 = b2"
    using f(2) unfolding find_booking_def by (auto simp: find_Some_iff)
  have none: "booking_status y \<noteq> Booked" if "y \<in> set (seat_bookings st)" "same_seat y r1" for y
  proof
    assume "booking_status y = Booked"
    then have "y \<in> set (filter (\<lambda>r. booking_status r = Booked \<and> sb_shift r = sb_shift r1
                 \<and> seat_number r = seat_number r1 \<and> booking_date r = booking_date r1)
                 (seat_bookings st))"
      using that by (simp add: same_seat_def)
    then have "length (filter (\<lambda>r. booking_status r = Booked \<and> sb_shift r = sb_shift r1
                 \<and> seat_number r = seat_number r1 \<and> booking_date r = booking_date r1)
                 (seat_bookings st)) \<noteq> 0"
      by (rule member_length)
    then show False using free unfolding booked_count_def by simp
  qed
  show c: "contested b1 b2 r1 st"
    unfolding contested_def list_ex_iff list_all_iff
  proof (intro conjI)
    show "b1 \<noteq> b2" by (rule p(3))
    show "distinct (map sb_id (seat_bookings st))" using d by (simp add: booking_ids_distinct_def)
    show "\<exists>r\<in>set (seat_bookings st). sb_id r = b1 \<and> same_seat r r1"
      using r1 by (auto simp: same_seat_def)
    show "\<exists>r\<in>set (seat_bookings st). sb_id r = b2 \<and> same_seat r r1"
      using r2 k by (auto simp: same_seat_def)
    show "\<forall>r\<in>set (seat_bookings st).
            sb_id r \<noteq> b1 \<and> sb_id r \<noteq> b2 \<and> same_seat r r1 \<longrightarrow> booking_status r \<noteq> Booked"
      using none by blast
  qed
  have nb1: "\<not> is_booked st b1"
  proof
    assume "is_booked st b1"
    then obtain y where y: "y \<in> set (seat_bookings st)" "sb_id y = b1" "booking_status y = Booked"
      unfolding is_booked_def list_ex_iff by blast
    have "y = r1" using row_by_id[of "seat_bookings st" y r1] d y r1
      by (simp add: booking_ids_distinct_def)
    then show False using none[of y] y by (simp add: same_seat_def)
  qed
  have nb2: "\<not> is_booked st b2"
  proof
    assume "is_booked st b2"
    then obtain y where y: "y \<in> set (seat_bookings st)" "sb_id y = b2" "booking_status y = Booked"
      unfolding is_booked_def list_ex_iff by blast
    have "y = r2" using row_by_id[of "seat_bookings st" y r2] d y r2
      by (simp add: booking_ids_distinct_def)
    then show False using none[of y] y k by (simp add: same_seat_def)
  qed
  have "waiting b1 (Running (approval_statements a1 p1 n1))"
    unfolding waiting_def approval_statements_def p(1)
    by (rule exI[of _ "[UpdateCashPayment (cp_id p1) Approved a1 n1]"]) simp
  then show "phase_ok b1 b2 (Running (approval_statements a1 p1 n1)) st"
    using nb1 by (simp add: phase_ok_def)
  have "waiting b2 (Running (approval_statements a2 p2 n2))"
    unfolding waiting_def approval_statements_def p(2)
    by (rule exI[of _ "[UpdateCashPayment (cp_id p2) Approved a2 n2]"]) simp
  then show "phase_ok b2 b1 (Running (approval_statements a2 p2 n2)) st"
    using nb2 by (simp add: phase_ok_def)
qed

text \<open>Run alone, the statements of an approval are \<^verbatim>\<open>handlePaymentAction\<close> for a payment
  that is linked to no admission.\<close>

lemma approval_alone:
  assumes "admission_id payment = None"
      and "run_schedule [True, True, True, True]
             (Running (approval_statements admin payment now), t2, st) = (t1', t2', st')"
  shows "t2' = t2
         \<and> handlePaymentAction st admin payment Approve now endDateAfter =
             (if succeeded t1' then AlertSuccess else AlertError, st')"
proof (cases "booking_id payment")
  case None
  then show ?thesis
    using assms
    by (auto simp: approval_statements_def handlePaymentAction_def approve_branch_def
          update_cash_payment_def insert_admin_log_def insert_notification_def Let_def)
next
  case (Some bid)
  let ?st1 = "st\<lparr>cash_payments :=
                   map (\<lambda>p. if cp_id p = cp_id payment
                             then p\<lparr>status := Approved, approved_by := admin,
                                    approved_at := Some now\<rparr>
                             else p) (cash_payments st)\<rparr>"
  show ?thesis
  proof (cases "update_booking_status ?st1 bid Booked")
    case (Inl e)
    then show ?thesis
      using assms Some
      by (auto simp: approval_statements_def handlePaymentAction_def approve_branch_def
            update_cash_payment_def Let_def)
  next
    case (Inr st2)
    then show ?thesis
      using assms Some
      by (auto simp: approval_statements_def handlePaymentAction_def approve_branch_def
            update_cash_payment_def insert_admin_log_def insert_notification_def Let_def)
  qed
qed

lemma finished_todo: "finished t = (todo t = 0)"
  by (cases t) simp_all

lemma step_thread_todo: "todo (fst (step_thread t st)) \<le> todo t - 1"
  by (cases "(t, st)" rule: step_thread.cases) (auto split: sum.splits)

lemma run_schedule_todo:
  "run_schedule sch (t1, t2, st) = (u1, u2, st')
     \<Longrightarrow> todo u1 \<le> todo t1 - count_list sch True
         \<and> todo u2 \<le> todo t2 - count_list sch False"
proof (induction sch arbitrary: t1 t2 st)
  case Nil
  then show ?case by simp
next
  case (Cons b sch)
  show ?case
  proof (cases b)
    case True
    obtain tn stn where s: "step_thread t1 st = (tn, stn)"
      by (cases "step_thread t1 st") auto
    then have "run_schedule sch (tn, t2, stn) = (u1, u2, st')"
      using Cons.prems True by simp
    then have "todo u1 \<le> todo tn - count_list sch True"
      and "todo u2 \<le> todo t2 - count_list sch False"
      using Cons.IH by blast+
    moreover have "todo tn \<le> todo t1 - 1"
      using step_thread_todo[of t1 st] s by simp
    ultimately show ?thesis using True by simp
  next
    case False
    obtain tn stn where s: "step_thread t2 st = (tn, stn)"
      by (cases "step_thread t2 st") auto
    then have "run_schedule sch (t1, tn, stn) = (u1, u2, st')"
      using Cons.prems False by simp
    then have "todo u1 \<le> todo t1 - count_list sch True"
      and "todo u2 \<le> todo tn - count_list sch False"
      using Cons.IH by blast+
    moreover have "todo tn \<le> todo t2 - 1"
      using step_thread_todo[of t2 st] s by simp
    ultimately show ?thesis using False by simp
  qed
qed

lemma approval_statements_length: "length (approval_statements a p n) \<le> 4"
  by (simp add: approval_statements_def split: option.splits)

lemma fair_schedule_finishes:
  assumes "run_schedule sch (Running (approval_statements a1 p1 n1),
                             Running (approval_statements a2 p2 n2), st) = (t1, t2, st')"
      and "4 \<le> count_list sch True" "4 \<le> count_list sch False"
  shows "finished t1 \<and> finished t2"
proof -
  have "todo t1 \<le> length (approval_statements a1 p1 n1) - count_list sch True"
    and "todo t2 \<le> length (approval_statements a2 p2 n2) - count_list sch False"
    using run_schedule_todo[OF assms(1)] by simp_all
  then have "todo t1 = 0" "todo t2 = 0"
    using assms(2,3) approval_statements_length[of a1 p1 n1]
      approval_statements_length[of a2 p2 n2] by simp_all
  then show ?thesis by (simp add: finished_todo)
qed

text \<open>C1: whatever statements the store is sent, starting from the empty store, it never
  holds two rows with status \<^verbatim>\<open>booked\<close> for one seat of a shift on a date: the index
  refuses the statement that would add the second, and no check of the application is
  involved. When two approvals of different pending requests for one seat, not booked
  so far, run side by side in any order of their statements and both have finished,
  exactly one of them has succeeded and the seat has exactly one booked row; both have
  finished as soon as the schedule has given each of them four turns.\<close>

theorem seat_booked_at_most_once:
  "booked_count (exec_all ss empty_store) shift seat d \<le> 1
   \<and> (booking_ids_distinct st
        \<and> booking_id p1 = Some b1 \<and> booking_id p2 = Some b2 \<and> b1 \<noteq> b2
        \<and> find_booking st b1 = Some r1 \<and> find_booking st b2 = Some r2
        \<and> booking_status r1 = BookingPending \<and> booking_status r2 = BookingPending
        \<and> same_seat r1 r2
        \<and> booked_count st (sb_shift r1) (seat_number r1) (booking_date r1) = 0
        \<and> run_schedule sch (Running (approval_statements a1 p1 n1),
                             Running (approval_statements a2 p2 n2), st) = (t1, t2, st')
        \<and> finished t1 \<and> finished t2
      \<longrightarrow> succeeded t1 \<noteq> succeeded t2
          \<and> booked_count st' (sb_shift r1) (seat_number r1) (booking_date r1) = 1)
   \<and> (run_schedule sch (Running (approval_statements a1 p1 n1),
                         Running (approval_statements a2 p2 n2), st) = (t1, t2, st')
        \<and> 4 \<le> count_list sch True \<and> 4 \<le> count_list sch False
      \<longrightarrow> finished t1 \<and> finished t2)"
proof (intro conjI impI)
  show "booked_count (exec_all ss empty_store) shift seat d \<le> 1"
    by (rule booked_once_any_statements)
next
  assume h: "booking_ids_distinct st
        \<and> booking_id p1 = Some b1 \<and> booking_id p2 = Some b2 \<and> b1 \<noteq> b2
        \<and> find_booking st b1 = Some r1 \<and> find_booking st b2 = Some r2
        \<and> booking_status r1 = BookingPending \<and> booking_status r2 = BookingPending
        \<and> same_seat r1 r2
        \<and> booked_count st (sb_shift r1) (seat_number r1) (booking_date r1) = 0
        \<and> run_schedule sch (Running (approval_statements a1 p1 n1),
                             Running (approval_statements a2 p2 n2), st) = (t1, t2, st')
        \<and> finished t1 \<and> finished t2"
  have h1: "booking_ids_distinct st" and h2: "booking_id p1 = Some b1"
    and h3: "booking_id p2 = Some b2" and h4: "b1 \<noteq> b2"
    and h5: "find_booking st b1 = Some r1" and h6: "find_booking st b2 = Some r2"
    and h7: "same_seat r1 r2"
    and h8: "booked_count st (sb_shift r1) (seat_number r1) (booking_date r1) = 0"
    and h9: "finished t1" and h10: "finished t2"
    using h by simp_all
  have start: "contested b1 b2 r1 st"
    "phase_ok b1 b2 (Running (approval_statements a1 p1 n1)) st"
    "phase_ok b2 b1 (Running (approval_statements a2 p2 n2)) st"
    using race_start[OF h1 h2 h3 h4 h5 h6 h7 h8] by simp_all
  have run: "run_schedule sch (Running (approval_statements a1 p1 n1),
                               Running (approval_statements a2 p2 n2), st) = (t1, t2, st')"
    using h by blast
  have fin: "contested b1 b2 r1 st'" "phase_ok b1 b2 t1 st'" "phase_ok b2 b1 t2 st'"
    using schedule_keeps[OF start run] by simp_all
  have f1: "(succeeded t1 \<and> is_booked st' b1 \<and> \<not> is_booked st' b2)
            \<or> (\<not> succeeded t1 \<and> \<not> is_booked st' b1 \<and> is_booked st' b2)"
    using finished_phase[OF fin(2) h9] .
  have f2: "(succeeded t2 \<and> is_booked st' b2 \<and> \<not> is_booked st' b1)
            \<or> (\<not> succeeded t2 \<and> \<not> is_booked st' b2 \<and> is_booked st' b1)"
    using finished_phase[OF fin(3) h10] .
  show "succeeded t1 \<noteq> succeeded t2"
    using f1 f2 by blast
  show "booked_count st' (sb_shift r1) (seat_number r1) (booking_date r1) = 1"
  proof (cases "is_booked st' b1")
    case True
    then have "\<not> is_booked st' b2" using f1 by blast
    then show ?thesis using one_booked_row[OF fin(1) True] by simp
  next
    case False
    then have b2: "is_booked st' b2" using f1 by blast
    have "contested b2 b1 r1 st'" using fin(1) contested_sym by blast
    then show ?thesis using one_booked_row[of b2 b1 r1 st'] b2 False by simp
  qed
next
  assume "run_schedule sch (Running (approval_statements a1 p1 n1),
                            Running (approval_statements a2 p2 n2), st) = (t1, t2, st')
        \<and> 4 \<le> count_list sch True \<and> 4 \<le> count_list sch False"
  then have "finished t1 \<and> finished t2"
    using fair_schedule_finishes[of sch a1 p1 n1 a2 p2 n2 st t1 t2 st'] by blast
  then show "finished t1" and "finished t2"
    by simp_all
qed

theorem seat_booked_at_most_once_witness:
  "booked_count (exec_all [InsertSeatBooking 10 ''morning'' ''A12'' Booked ''2025-01-10'',
                           InsertSeatBooking 11 ''morning'' ''A12'' Booked ''2025-01-10'']
                   empty_store) ''morning'' ''A12'' ''2025-01-10'' \<le> 1
   \<and> succeeded (fst (run_schedule [True, False, False, True, True, True, False, False]
                     (Running (approval_statements (Some 1) payment_10 900),
                      Running (approval_statements (Some 2) payment_11 901), contested_store)))
      \<noteq> succeeded (fst (snd (run_schedule [True, False, False, True, True, True, False, False]
                     (Running (approval_statements (Some 1) payment_10 900),
                      Running (approval_statements (Some 2) payment_11 901), contested_store))))
   \<and> booked_count (snd (snd (run_schedule [True, False, False, True, True, True, False, False]
                     (Running (approval_statements (Some 1) payment_10 900),
                      Running (approval_statements (Some 2) payment_11 901), contested_store))))
        ''morning'' ''A12'' ''2025-01-10'' = 1"
proof -
  define R where "R = run_schedule [True, False, False, True, True, True, False, False]
                     (Running (approval_statements (Some 1) payment_10 900),
                      Running (approval_statements (Some 2) payment_11 901), contested_store)"
  have R: "run_schedule [True, False, False, True, True, True, False, False]
                     (Running (approval_statements (Some 1) payment_10 900),
                      Running (approval_statements (Some 2) payment_11 901), contested_store)
           = (fst R, fst (snd R), snd (snd R))"
    unfolding R_def by simp
  have turns: "4 \<le> count_list [True, False, False, True, True, True, False, False] True
               \<and> 4 \<le> count_list [True, False, False, True, True, True, False, False] False"
    by simp
  have fin: "finished (fst R) \<and> finished (fst (snd R))"
    using seat_booked_at_most_once[of "[]" "''morning''" "''A12''" "''2025-01-10''"
            contested_store payment_10 1 payment_11 2 request_10 request_11
            "[True, False, False, True, True, True, False, False]" "Some 1" 900 "Some 2" 901
            "fst R" "fst (snd R)" "snd (snd R)"]
      R turns by blast
  have h: "booking_ids_distinct contested_store
        \<and> booking_id payment_10 = Some 1 \<and> booking_id payment_11 = Some 2 \<and> (1::nat) \<noteq> 2
        \<and> find_booking contested_store 1 = Some request_10
        \<and> find_booking contested_store 2 = Some request_11
        \<and> booking_status request_10 = BookingPending
        \<and> booking_status request_11 = BookingPending
        \<and> same_seat request_10 request_11
        \<and> booked_count contested_store (sb_shift request_10) (seat_number request_10)
             (booking_date request_10) = 0"
    by (simp add: booking_ids_distinct_def contested_store_def request_10_def request_11_def
          payment_10_def payment_11_def empty_store_def find_booking_def same_seat_def
          booked_count_def)
  have key: "sb_shift request_10 = ''morning''" "seat_number request_10 = ''A12''"
    "booking_date request_10 = ''2025-01-10''"
    by (simp_all add: request_10_def)
  have "succeeded (fst R) \<noteq> succeeded (fst (snd R))
        \<and> booked_count (snd (snd R)) ''morning'' ''A12'' ''2025-01-10'' = 1"
    using seat_booked_at_most_once[of "[]" "''morning''" "''A12''" "''2025-01-10''"
            contested_store payment_10 1 payment_11 2 request_10 request_11
            "[True, False, False, True, True, True, False, False]" "Some 1" 900 "Some 2" 901
            "fst R" "fst (snd R)" "snd (snd R)"]
      h R fin unfolding key by blast
  moreover have "booked_count (exec_all [InsertSeatBooking 10 ''morning'' ''A12'' Booked ''2025-01-10'',
                           InsertSeatBooking 11 ''morning'' ''A12'' Booked ''2025-01-10'']
                   empty_store) ''morning'' ''A12'' ''2025-01-10'' \<le> 1"
    using seat_booked_at_most_once[of "[InsertSeatBooking 10 ''morning'' ''A12'' Booked ''2025-01-10'',
                           InsertSeatBooking 11 ''morning'' ''A12'' Booked ''2025-01-10'']"
            "''morning''" "''A12''" "''2025-01-10''"]
    by blast
  ultimately show ?thesis
    unfolding R_def by blast
qed

end
